theory Spec2Isabelle
  imports Main "HOL-Library.AList"
begin

section \<open>Data model\<close>

text \<open>
  The server keeps its state in module-level JavaScript \<open>Map\<close>s and \<open>Set\<close>s:
  \<open>clients\<close>, \<open>streamers\<close>, \<open>masters\<close> (websocket.js), \<open>transports\<close>,
  \<open>producers\<close>, \<open>consumers\<close> (mediasoup.js), \<open>recordings\<close>, \<open>nextRtpPort\<close>,
  \<open>ffmpegAvailable\<close> (recorder.js). A \<open>Map\<close> iterates in insertion order, \<open>set\<close> on a
  present key keeps the key's position and \<open>delete\<close> removes it: that is an association
  list under \<open>AList.update\<close>, \<open>AList.delete\<close> and \<open>map_of\<close>. A \<open>Set\<close> is a list
  without duplicates, appended to.

  Identifiers (client, transport, producer and consumer ids) are strings. JSON values the
  server only passes on (zoom, pan, rtp and dtls parameters) are kept as their text.
  A field that may be \<open>null\<close> or \<open>undefined\<close> is an option. Strings are taken to
  be ASCII, one \<open>char\<close> per UTF-16 unit. Console output is not part of the model.
\<close>

type_synonym ident = string
type_synonym jsval = string

datatype readyState = CONNECTING | OPEN | CLOSING | CLOSED

record client =
  c_ws :: readyState
  c_role :: "string option"
  c_deviceName :: "string option"
  c_clientIp :: string

record streamer =
  s_deviceName :: string
  s_producers :: "ident list"
  s_transports :: "ident list"

record transportData =
  t_clientId :: ident

record producerData =
  p_clientId :: ident
  p_deviceName :: "string option"
  p_kind :: string

record consumerData =
  k_clientId :: ident
  k_producerId :: ident

record recording =
  r_plainTransport :: ident
  r_consumer :: ident
  r_ffmpeg :: nat
  r_filepath :: string
  r_sdpPath :: string
  r_deviceName :: "string option"
  r_rtpPort :: int
  r_startTime :: int

text \<open>
  What \<open>setTimeout\<close> is handed: the stop sequence of a recording, and the forced kill
  it schedules in turn. Both capture the recording.
\<close>

datatype timer = StopSequence recording | ForceKill recording

text \<open>Objects of the media engine, named by their id.\<close>

datatype resource = Transport ident | Producer ident | Consumer ident

text \<open>The capture description written for the encoder (the fields of the SDP text).\<close>

record sdp =
  sdp_port :: int
  sdp_payloadType :: int
  sdp_codecName :: string
  sdp_clockRate :: int
  sdp_ssrc :: int

text \<open>Calls that leave the process: to the media engine, the file system, the encoder.\<close>

datatype effect =
    Close resource
  | CreateWebRtcTransport ident ident
  | ConnectTransport ident jsval
  | ProduceOn ident ident string
  | ConsumeOn ident ident ident
  | ResumeConsumer ident
  | CreatePlainTransport ident
  | PlainConnect ident int int
  | Mkdir string
  | WriteFile string sdp
  | Spawn nat "string list"
  | StdinWrite nat string
  | Kill nat string
  | Unlink string

text \<open>Outbound frames: \<open>{type, payload}\<close>.\<close>

datatype outbound =
    Welcome ident
  | Registered "string option" string
  | StreamerList "(ident \<times> string \<times> (ident \<times> string) list) list"
  | StreamerJoined ident string
  | StreamerLeft ident "string option"
  | NewProducer ident ident "string option" string
  | TransportCreated jsval ident
  | TransportConnected ident
  | Produced ident string
  | Consumed ident ident
  | ConsumerResumed ident
  | PanZoomCommand "jsval option" "jsval option" "jsval option"
  | ProducerList "(ident \<times> ident \<times> string option \<times> string) list"
  | StreamingStopped
  | ErrorMsg string

record server =
  clients :: "(ident \<times> client) list"
  streamers :: "(ident \<times> streamer) list"
  masters :: "ident list"
  transports :: "(ident \<times> transportData) list"
  producers :: "(ident \<times> producerData) list"
  consumers :: "(ident \<times> consumerData) list"
  recordings :: "(ident \<times> recording) list"
  nextRtpPort :: int
  ffmpegAvailable :: bool
  closed :: "resource list"
  killed :: "nat list"
  fs :: "string list"
  timers :: "(int \<times> timer) list"
  effects :: "effect list"
  sent :: "(ident \<times> outbound) list"

text \<open>
  \<open>closed\<close> holds the engine objects whose \<open>closed\<close> flag is set, \<open>killed\<close> the
  encoder processes whose \<open>killed\<close> flag is set, \<open>fs\<close> the paths that exist, \<open>timers\<close>
  the pending callbacks with their delay, \<open>effects\<close> the external calls made so far and
  \<open>sent\<close> the frames handed to \<open>ws.send\<close>, each with the client whose socket it was.
\<close>

text \<open>
  What a call cannot decide by itself comes from the environment: the clock, the answers
  of the media engine (a rejected promise is \<open>Inl\<close> or \<open>Some\<close> of its message), the
  outcome of file operations, the handle of a spawned process, and the events the engine
  emits when an object is closed.
\<close>

record consumerDesc =
  cd_id :: ident
  cd_codec :: "(string \<times> int \<times> int) option"
  cd_ssrc :: "int option"

record env =
  e_now :: int
  e_iso :: string
  e_recordingsDir :: string
  e_cascade :: "resource \<Rightarrow> resource list"
  e_createWebRtcTransport :: "string + ident"
  e_connect :: "string option"
  e_produce :: "string + ident"
  e_canConsume :: "ident \<Rightarrow> jsval \<Rightarrow> bool"
  e_consume :: "string + ident"
  e_resume :: "string option"
  e_mkdir :: "string option"
  e_createPlainTransport :: "string + ident"
  e_recConsume :: "string + consumerDesc"
  e_plainConnect :: "string option"
  e_writeFile :: "string option"
  e_spawn :: nat
  e_recResume :: "string option"
  e_stdinWrite :: "string option"
  e_kill :: bool
  e_unlink :: "string option"

text \<open>
  \<open>e_now\<close> and \<open>e_iso\<close> are \<open>new Date()\<close> in milliseconds and as ISO text;
  \<open>e_recordingsDir\<close> is the resolved \<open>config.recording.directory\<close>;
  \<open>e_createWebRtcTransport\<close>, \<open>e_produce\<close>, \<open>e_consume\<close> and
  \<open>e_createPlainTransport\<close> give the id of the object the engine creates;
  \<open>e_connect\<close>, \<open>e_resume\<close>, \<open>e_plainConnect\<close> and \<open>e_recResume\<close> are
  \<open>transport.connect\<close> and \<open>consumer.resume\<close> for a client and for a recording;
  \<open>e_canConsume\<close> is \<open>router.canConsume\<close>; \<open>e_recConsume\<close> is the consumer on the
  capture transport, with \<open>codecs[0]\<close> (mimeType, payloadType, clockRate) and
  \<open>encodings[0].ssrc\<close> of its rtp parameters, \<open>None\<close> where the array is empty;
  \<open>e_mkdir\<close>, \<open>e_writeFile\<close> and \<open>e_unlink\<close> are the file operations; \<open>e_spawn\<close> is
  the handle of the spawned encoder, \<open>e_stdinWrite\<close> the write to its stdin, \<open>e_kill\<close>
  whether a signal sent to it was delivered.
\<close>

text \<open>A call returns a value or throws; the state reached so far is kept either way.\<close>

datatype 'a result = Return 'a | Throw string

section \<open>Engine objects and their handlers\<close>

text \<open>
  The handlers registered with \<open>.on('close' | 'transportclose' | 'producerclose', ...)\<close>
  in createWebRtcTransport, createProducer and createConsumer delete the object's entry.
\<close>

fun fire :: "resource \<Rightarrow> server \<Rightarrow> server" where
  "fire (Transport i) s = s\<lparr>transports := AList.delete i (transports s)\<rparr>"
| "fire (Producer i) s = s\<lparr>producers := AList.delete i (producers s)\<rparr>"
| "fire (Consumer i) s = s\<lparr>consumers := AList.delete i (consumers s)\<rparr>"

definition mark_closed :: "resource \<Rightarrow> server \<Rightarrow> server" where
  "mark_closed r s = (if r \<in> set (closed s) then s else s\<lparr>closed := closed s @ [r]\<rparr>)"

text \<open>
  \<open>x.close()\<close>: nothing happens on an object already closed; otherwise the object is
  closed and the engine emits its events, \<open>e_cascade\<close> naming the objects whose handlers
  run (and which the engine closes with it).
\<close>

definition close_resource :: "env \<Rightarrow> resource \<Rightarrow> server \<Rightarrow> server" where
  "close_resource e r s =
     (let s1 = s\<lparr>effects := effects s @ [Close r]\<rparr>
      in if r \<in> set (closed s) then s1
         else fold (\<lambda>r' t. fire r' (mark_closed r' t)) (e_cascade e r) (mark_closed r s1))"

section \<open>recorder.js\<close>

definition getNextPort :: "server \<Rightarrow> int \<times> server" where
  "getNextPort s =
     (let port = nextRtpPort s;
          n = nextRtpPort s + 2
      in (port, s\<lparr>nextRtpPort := (if n > 30000 then 20000 else n)\<rparr>))"

text \<open>\<open>.replace(/[:.]/g, '-')\<close> and \<open>.replace(/[^a-zA-Z0-9-_]/g, '_')\<close>.\<close>

definition timestamp_of :: "string \<Rightarrow> string" where
  "timestamp_of isoString = map (\<lambda>c. if c = CHR '':'' \<or> c = CHR ''.'' then CHR ''-'' else c) isoString"

definition safe_char :: "char \<Rightarrow> bool" where
  "safe_char c \<longleftrightarrow>
     (let n = (of_char c :: nat)
      in (97 \<le> n \<and> n \<le> 122) \<or> (65 \<le> n \<and> n \<le> 90) \<or> (48 \<le> n \<and> n \<le> 57)
         \<or> c = CHR ''-'' \<or> c = CHR ''_'')"

definition truthy :: "string option \<Rightarrow> bool" where
  "truthy v = (case v of None \<Rightarrow> False | Some x \<Rightarrow> x \<noteq> [])"

definition safeDeviceName :: "string option \<Rightarrow> string" where
  "safeDeviceName deviceName =
     map (\<lambda>c. if safe_char c then c else CHR ''_'')
       (if truthy deviceName then the deviceName else ''unknown'')"

definition path_join :: "string \<Rightarrow> string \<Rightarrow> string" where
  "path_join dir name = dir @ ''/'' @ name"

text \<open>\<open>codec.mimeType.split('/')[1].toUpperCase()\<close>; \<open>None\<close> where \<open>[1]\<close> is undefined.\<close>

definition toUpperCase :: "string \<Rightarrow> string" where
  "toUpperCase xs =
     map (\<lambda>c. let n = (of_char c :: nat)
               in if 97 \<le> n \<and> n \<le> 122 then char_of (n - 32) else c) xs"

definition codecName_of :: "string \<Rightarrow> string option" where
  "codecName_of mimeType =
     (case dropWhile (\<lambda>c. c \<noteq> CHR ''/'') mimeType of
        [] \<Rightarrow> None
      | _ # rest \<Rightarrow> Some (toUpperCase (takeWhile (\<lambda>c. c \<noteq> CHR ''/'') rest)))"

definition ffmpegArgs :: "string \<Rightarrow> string \<Rightarrow> string list" where
  "ffmpegArgs sdpPath filepath =
     [''-y'', ''-protocol_whitelist'', ''file,udp,rtp'', ''-fflags'', ''+genpts+discardcorrupt'',
      ''-analyzeduration'', ''2000000'', ''-probesize'', ''2000000'', ''-i'', sdpPath,
      ''-c:v'', ''copy'', ''-f'', ''matroska'', filepath]"

text \<open>
  The \<open>try\<close> block of startRecording. Every rejected promise and every thrown TypeError
  inside it is caught and makes the call return \<open>null\<close>, with whatever was done before
  left in place. The awaits (among them the one-second sleep) are taken without another
  handler running in between. The body is cut in three: from the encoder's spawn to the
  stored session (steps 5 to 7), from the transport's connect to the capture description
  (steps 3 and 4), and the whole, from the producer's lookup on.
\<close>

definition rec_spawn ::
  "env \<Rightarrow> ident \<Rightarrow> string option \<Rightarrow> string \<Rightarrow> string \<Rightarrow> string \<Rightarrow> int \<Rightarrow> ident \<Rightarrow> ident
     \<Rightarrow> server \<Rightarrow> (string \<times> string) option \<times> server" where
  "rec_spawn e producerId deviceName filepath filename sdpPath rtpPort plainTransport consumer s =
     (let ffmpeg = e_spawn e;
          s1 = s\<lparr>effects := effects s @ [Spawn ffmpeg (ffmpegArgs sdpPath filepath)]\<rparr>
      in case e_recResume e of
           Some err \<Rightarrow> (None, s1)
         | None \<Rightarrow>
            (let s2 = s1\<lparr>effects := effects s1 @ [ResumeConsumer consumer]\<rparr>;
                 s3 = s2\<lparr>recordings := AList.update producerId
                            \<lparr>r_plainTransport = plainTransport,
                             r_consumer = consumer,
                             r_ffmpeg = ffmpeg,
                             r_filepath = filepath,
                             r_sdpPath = sdpPath,
                             r_deviceName = deviceName,
                             r_rtpPort = rtpPort,
                             r_startTime = e_now e\<rparr> (recordings s2)\<rparr>
             in (Some (filepath, filename), s3)))"

definition rec_connect ::
  "env \<Rightarrow> ident \<Rightarrow> string option \<Rightarrow> string \<Rightarrow> string \<Rightarrow> string \<Rightarrow> int \<Rightarrow> ident \<Rightarrow> ident
     \<Rightarrow> sdp \<Rightarrow> server \<Rightarrow> (string \<times> string) option \<times> server" where
  "rec_connect e producerId deviceName recordingsDir filepath filename rtpPort plainTransport
       consumer sdpContent s =
     (case e_plainConnect e of
        Some err \<Rightarrow> (None, s)
      | None \<Rightarrow>
         (let s1 = s\<lparr>effects := effects s @ [PlainConnect plainTransport rtpPort (rtpPort + 1)]\<rparr>;
              sdpPath = path_join recordingsDir (producerId @ ''.sdp'')
          in case e_writeFile e of
               Some err \<Rightarrow> (None, s1)
             | None \<Rightarrow>
                rec_spawn e producerId deviceName filepath filename sdpPath rtpPort
                  plainTransport consumer
                  (s1\<lparr>fs := (if sdpPath \<in> set (fs s1) then fs s1 else fs s1 @ [sdpPath]),
                      effects := effects s1 @ [WriteFile sdpPath sdpContent]\<rparr>)))"

definition startRecording_body ::
  "env \<Rightarrow> ident \<Rightarrow> string option \<Rightarrow> string \<Rightarrow> server \<Rightarrow> (string \<times> string) option \<times> server" where
  "startRecording_body e producerId deviceName recordingsDir s =
     (case map_of (producers s) producerId of
        None \<Rightarrow> (None, s)
      | Some producerData \<Rightarrow>
         (let rtpPort = fst (getNextPort s);
              s1 = snd (getNextPort s);
              filename = safeDeviceName deviceName @ ''_'' @ timestamp_of (e_iso e) @ ''.mkv'';
              filepath = path_join recordingsDir filename
          in case e_createPlainTransport e of
               Inl err \<Rightarrow> (None, s1)
             | Inr plainTransport \<Rightarrow>
                (let s2 = s1\<lparr>effects := effects s1 @ [CreatePlainTransport plainTransport]\<rparr>
                 in case e_recConsume e of
                      Inl err \<Rightarrow> (None, s2)
                    | Inr consumer \<Rightarrow>
                       (let s3 = s2\<lparr>effects := effects s2
                                      @ [ConsumeOn plainTransport producerId (cd_id consumer)]\<rparr>
                        in case cd_codec consumer of
                             None \<Rightarrow> (None, s3)
                           | Some (mimeType, payloadType, clockRate) \<Rightarrow>
                              (case codecName_of mimeType of
                                 None \<Rightarrow> (None, s3)
                               | Some codecName \<Rightarrow>
                                  (case cd_ssrc consumer of
                                     None \<Rightarrow> (None, s3)
                                   | Some ssrc \<Rightarrow>
                                      rec_connect e producerId deviceName recordingsDir filepath
                                        filename rtpPort plainTransport (cd_id consumer)
                                        \<lparr>sdp_port = rtpPort, sdp_payloadType = payloadType,
                                         sdp_codecName = codecName, sdp_clockRate = clockRate,
                                         sdp_ssrc = ssrc\<rparr> s3))))))"

text \<open>
  startRecording: the availability gate, then the recordings directory (\<open>mkdirSync\<close> is
  outside the \<open>try\<close>, so its failure is thrown to the caller), then the body.
\<close>

definition startRecording ::
  "env \<Rightarrow> ident \<Rightarrow> string option \<Rightarrow> server \<Rightarrow> (string \<times> string) option result \<times> server" where
  "startRecording e producerId deviceName s =
     (if \<not> ffmpegAvailable s then (Return None, s)
      else
        (let recordingsDir = e_recordingsDir e
         in if recordingsDir \<in> set (fs s)
            then (case startRecording_body e producerId deviceName recordingsDir s of
                    (r, s') \<Rightarrow> (Return r, s'))
            else (case e_mkdir e of
                    Some err \<Rightarrow> (Throw err, s)
                  | None \<Rightarrow>
                     (case startRecording_body e producerId deviceName recordingsDir
                             (s\<lparr>fs := fs s @ [recordingsDir],
                                effects := effects s @ [Mkdir recordingsDir]\<rparr>) of
                        (r, s') \<Rightarrow> (Return r, s')))))"

text \<open>
  stopRecording: with a session under the id, close its consumer (unless closed
  already), hand the rest of the shutdown to a 500 ms timer, drop the entry and return
  \<open>{filepath, duration, deviceName}\<close>, the duration being
  \<open>Math.round((now - startTime) / 1000)\<close>; without one, return \<open>null\<close>.
\<close>

definition stopRecording ::
  "env \<Rightarrow> ident \<Rightarrow> server \<Rightarrow> (string \<times> int \<times> string option) option \<times> server" where
  "stopRecording e producerId s =
     (case map_of (recordings s) producerId of
        Some recording \<Rightarrow>
          (let s1 = (if Consumer (r_consumer recording) \<notin> set (closed s)
                     then close_resource e (Consumer (r_consumer recording)) s else s);
               s2 = s1\<lparr>timers := timers s1 @ [(500, StopSequence recording)]\<rparr>;
               s3 = s2\<lparr>recordings := AList.delete producerId (recordings s2)\<rparr>;
               duration = (e_now e - r_startTime recording + 500) div 1000
           in (Some (r_filepath recording, duration, r_deviceName recording), s3))
      | None \<Rightarrow> (None, s))"

text \<open>
  The callbacks. \<open>kill\<close> sets the \<open>killed\<close> flag when the signal was delivered
  (\<open>e_kill\<close>); every step of the callbacks sits in a \<open>try\<close> whose \<open>catch\<close> is empty, or
  falls back from writing \<open>q\<close> to the encoder's stdin to SIGINT. The stop sequence: ask
  the encoder to quit and schedule the forced kill in 3000 ms (unless it is killed
  already), close the capture transport (unless closed), delete the capture description
  (if it exists). The encoder's \<open>close\<close> listener deletes the capture description too.
\<close>

definition kill_process :: "env \<Rightarrow> nat \<Rightarrow> string \<Rightarrow> server \<Rightarrow> server" where
  "kill_process e ffmpeg signal s =
     s\<lparr>effects := effects s @ [Kill ffmpeg signal],
       killed := (if e_kill e \<and> ffmpeg \<notin> set (killed s) then killed s @ [ffmpeg]
                  else killed s)\<rparr>"

definition unlink_if_exists :: "env \<Rightarrow> string \<Rightarrow> server \<Rightarrow> server" where
  "unlink_if_exists e path s =
     (if path \<in> set (fs s)
      then (case e_unlink e of
              None \<Rightarrow> s\<lparr>fs := removeAll path (fs s), effects := effects s @ [Unlink path]\<rparr>
            | Some err \<Rightarrow> s)
      else s)"

fun run_timer :: "env \<Rightarrow> timer \<Rightarrow> server \<Rightarrow> server" where
  "run_timer e (StopSequence recording) s =
     (let s1 = (if r_ffmpeg recording \<notin> set (killed s)
                then (let q = (case e_stdinWrite e of
                                 None \<Rightarrow> s\<lparr>effects := effects s
                                                  @ [StdinWrite (r_ffmpeg recording) ''q'']\<rparr>
                               | Some err \<Rightarrow> kill_process e (r_ffmpeg recording) ''SIGINT'' s)
                      in q\<lparr>timers := timers q @ [(3000, ForceKill recording)]\<rparr>)
                else s);
          s2 = (if Transport (r_plainTransport recording) \<notin> set (closed s1)
                then close_resource e (Transport (r_plainTransport recording)) s1 else s1)
      in if r_sdpPath recording \<noteq> [] then unlink_if_exists e (r_sdpPath recording) s2 else s2)"
| "run_timer e (ForceKill recording) s =
     (if r_ffmpeg recording \<notin> set (killed s)
      then kill_process e (r_ffmpeg recording) ''SIGKILL'' s else s)"

text \<open>
  stopAllRecordings iterates the keys of the map while stopRecording deletes from it: a
  key is visited if it is still present when the iteration reaches it.
\<close>

fun stopAll_loop :: "env \<Rightarrow> ident list \<Rightarrow> server \<Rightarrow> server" where
  "stopAll_loop e [] s = s"
| "stopAll_loop e (producerId # rest) s =
     stopAll_loop e rest
       (if map_of (recordings s) producerId \<noteq> None then snd (stopRecording e producerId s) else s)"

definition stopAllRecordings :: "env \<Rightarrow> server \<Rightarrow> server" where
  "stopAllRecordings e s = stopAll_loop e (map fst (recordings s)) s"

text \<open>getActiveRecordings: producerId, deviceName, filepath, startTime, duration.\<close>

definition getActiveRecordings ::
  "env \<Rightarrow> server \<Rightarrow> (ident \<times> string option \<times> string \<times> int \<times> int) list" where
  "getActiveRecordings e s =
     map (\<lambda>(producerId, rec).
            (producerId, r_deviceName rec, r_filepath rec, r_startTime rec,
             e_now e - r_startTime rec))
         (recordings s)"

definition isRecordingEnabled :: "server \<Rightarrow> bool" where
  "isRecordingEnabled s = ffmpegAvailable s"

section \<open>mediasoup.js\<close>

text \<open>
  The registries hold, per id, the owner and what the listings need; the engine object
  stored beside them is the \<open>resource\<close> of the same id. An id field missing from a
  payload behaves as an id no map holds.
\<close>

definition createWebRtcTransport :: "env \<Rightarrow> ident \<Rightarrow> server \<Rightarrow> ident result \<times> server" where
  "createWebRtcTransport e clientId s =
     (case e_createWebRtcTransport e of
        Inl err \<Rightarrow> (Throw err, s)
      | Inr transportId \<Rightarrow>
         (Return transportId,
          s\<lparr>effects := effects s @ [CreateWebRtcTransport clientId transportId],
            transports := AList.update transportId \<lparr>t_clientId = clientId\<rparr> (transports s)\<rparr>))"

definition connectTransport :: "env \<Rightarrow> ident \<Rightarrow> jsval \<Rightarrow> server \<Rightarrow> unit result \<times> server" where
  "connectTransport e transportId dtlsParameters s =
     (case map_of (transports s) transportId of
        None \<Rightarrow> (Throw (''Transport '' @ transportId @ '' not found''), s)
      | Some transportData \<Rightarrow>
         (case e_connect e of
            Some err \<Rightarrow> (Throw err, s)
          | None \<Rightarrow>
             (Return (), s\<lparr>effects := effects s @ [ConnectTransport transportId dtlsParameters]\<rparr>)))"

definition createProducer ::
  "env \<Rightarrow> ident \<Rightarrow> string \<Rightarrow> jsval \<Rightarrow> ident \<Rightarrow> string option \<Rightarrow> server \<Rightarrow> ident result \<times> server" where
  "createProducer e transportId kind rtpParameters clientId deviceName s =
     (case map_of (transports s) transportId of
        None \<Rightarrow> (Throw (''Transport '' @ transportId @ '' not found''), s)
      | Some transportData \<Rightarrow>
         (case e_produce e of
            Inl err \<Rightarrow> (Throw err, s)
          | Inr producerId \<Rightarrow>
             (Return producerId,
              s\<lparr>effects := effects s @ [ProduceOn transportId producerId kind],
                producers := AList.update producerId
                   \<lparr>p_clientId = clientId, p_deviceName = deviceName, p_kind = kind\<rparr>
                   (producers s)\<rparr>)))"

definition createConsumer ::
  "env \<Rightarrow> ident \<Rightarrow> ident \<Rightarrow> jsval \<Rightarrow> ident \<Rightarrow> server \<Rightarrow> (ident \<times> ident) result \<times> server" where
  "createConsumer e transportId producerId rtpCapabilities clientId s =
     (case map_of (transports s) transportId of
        None \<Rightarrow> (Throw (''Transport '' @ transportId @ '' not found''), s)
      | Some transportData \<Rightarrow>
         (case map_of (producers s) producerId of
            None \<Rightarrow> (Throw (''Producer '' @ producerId @ '' not found''), s)
          | Some producerData \<Rightarrow>
             (if \<not> e_canConsume e producerId rtpCapabilities
              then (Throw (''Cannot consume producer '' @ producerId), s)
              else (case e_consume e of
                      Inl err \<Rightarrow> (Throw err, s)
                    | Inr consumerId \<Rightarrow>
                       (Return (consumerId, producerId),
                        s\<lparr>effects := effects s @ [ConsumeOn transportId producerId consumerId],
                          consumers := AList.update consumerId
                             \<lparr>k_clientId = clientId, k_producerId = producerId\<rparr>
                             (consumers s)\<rparr>)))))"

definition resumeConsumer :: "env \<Rightarrow> ident \<Rightarrow> server \<Rightarrow> unit result \<times> server" where
  "resumeConsumer e consumerId s =
     (case map_of (consumers s) consumerId of
        None \<Rightarrow> (Throw (''Consumer '' @ consumerId @ '' not found''), s)
      | Some consumerData \<Rightarrow>
         (case e_resume e of
            Some err \<Rightarrow> (Throw err, s)
          | None \<Rightarrow> (Return (), s\<lparr>effects := effects s @ [ResumeConsumer consumerId]\<rparr>)))"

definition getProducers :: "server \<Rightarrow> (ident \<times> ident \<times> string option \<times> string) list" where
  "getProducers s = map (\<lambda>(id, d). (id, p_clientId d, p_deviceName d, p_kind d)) (producers s)"

definition getProducersByClient :: "ident \<Rightarrow> server \<Rightarrow> (ident \<times> string) list" where
  "getProducersByClient clientId s =
     map (\<lambda>(id, d). (id, p_kind d)) (filter (\<lambda>(id, d). p_clientId d = clientId) (producers s))"

text \<open>
  cleanupClient runs three \<open>for ... of map.entries()\<close> loops that delete from the map
  they iterate. A \<open>Map\<close> iterator skips an entry deleted before it is reached, so each loop
  walks the entries present at its start and visits those still present. The
  \<open>map.delete(id)\<close> that follows each \<open>close()\<close> is the deletion \<open>fire\<close> does.
\<close>

fun cleanup_producers :: "env \<Rightarrow> ident \<Rightarrow> (ident \<times> producerData) list \<Rightarrow> server \<Rightarrow> server" where
  "cleanup_producers e clientId [] s = s"
| "cleanup_producers e clientId ((producerId, d) # rest) s =
     cleanup_producers e clientId rest
       (if map_of (producers s) producerId \<noteq> None \<and> p_clientId d = clientId
        then fire (Producer producerId) (close_resource e (Producer producerId) s)
        else s)"

fun cleanup_consumers :: "env \<Rightarrow> ident \<Rightarrow> (ident \<times> consumerData) list \<Rightarrow> server \<Rightarrow> server" where
  "cleanup_consumers e clientId [] s = s"
| "cleanup_consumers e clientId ((consumerId, d) # rest) s =
     cleanup_consumers e clientId rest
       (if map_of (consumers s) consumerId \<noteq> None \<and> k_clientId d = clientId
        then fire (Consumer consumerId) (close_resource e (Consumer consumerId) s)
        else s)"

fun cleanup_transports :: "env \<Rightarrow> ident \<Rightarrow> (ident \<times> transportData) list \<Rightarrow> server \<Rightarrow> server" where
  "cleanup_transports e clientId [] s = s"
| "cleanup_transports e clientId ((transportId, d) # rest) s =
     cleanup_transports e clientId rest
       (if map_of (transports s) transportId \<noteq> None \<and> t_clientId d = clientId
        then fire (Transport transportId) (close_resource e (Transport transportId) s)
        else s)"

definition cleanupClient :: "env \<Rightarrow> ident \<Rightarrow> server \<Rightarrow> server" where
  "cleanupClient e clientId s =
     (let s1 = cleanup_producers e clientId (producers s) s;
          s2 = cleanup_consumers e clientId (consumers s1) s1
      in cleanup_transports e clientId (transports s2) s2)"

section \<open>websocket.js\<close>

text \<open>
  \<open>send(ws, type, payload)\<close> writes to a socket only in state OPEN. The socket is given
  by its state and by the client it belongs to.
\<close>

definition send :: "readyState \<Rightarrow> ident \<Rightarrow> outbound \<Rightarrow> server \<Rightarrow> server" where
  "send ws clientId msg s = (if ws = OPEN then s\<lparr>sent := sent s @ [(clientId, msg)]\<rparr> else s)"

definition broadcastToMasters :: "outbound \<Rightarrow> server \<Rightarrow> server" where
  "broadcastToMasters msg s =
     fold (\<lambda>masterId t.
             case map_of (clients t) masterId of
               Some master \<Rightarrow> if c_ws master = OPEN then send (c_ws master) masterId msg t else t
             | None \<Rightarrow> t)
          (masters s) s"

definition streamerList :: "server \<Rightarrow> (ident \<times> string \<times> (ident \<times> string) list) list" where
  "streamerList s =
     map (\<lambda>(id, st). (id, s_deviceName st, getProducersByClient id s)) (streamers s)"

datatype message =
    Register "string option" "string option"
  | CreateTransport jsval
  | ConnectTransportMsg ident jsval
  | Produce ident string jsval
  | Consume ident ident jsval
  | ResumeConsumerMsg ident
  | PanZoom ident "jsval option" "jsval option" "jsval option"
  | GetStreamers
  | GetProducers
  | StopStreaming
  | Unknown string

text \<open>
  The cases of handleMessage, one definition each. \<open>client\<close> is \<open>clients.get(clientId)\<close>:
  where the case reads or writes a property of it and it is undefined, a TypeError is
  thrown. Assignments to \<open>client\<close> and pushes to a streamer record change the object the
  map holds.

  A case that awaits is taken in one step, from the arrival of the frame to its last
  statement: the runs of this model are the executions of the server in which no other
  event is handled while a handler is suspended. For \<open>produce\<close> that is the creation of
  the producer, the \<open>new-producer\<close> broadcast and the whole of startRecording with its
  one-second sleep. What is proved of every run is proved of those executions; an
  execution in which a frame arrives during the sleep is not among them.
\<close>

definition handle_register ::
  "ident \<Rightarrow> readyState \<Rightarrow> string option \<Rightarrow> string option \<Rightarrow> server \<Rightarrow> unit result \<times> server" where
  "handle_register clientId ws role deviceName s =
     (case map_of (clients s) clientId of
        None \<Rightarrow> (Throw ''Cannot set properties of undefined (setting 'role')'', s)
      | Some client \<Rightarrow>
         (let name = (if truthy deviceName then the deviceName else ''Device-'' @ take 8 clientId);
              s1 = s\<lparr>clients := AList.map_entry clientId
                          (\<lambda>c. c\<lparr>c_role := role, c_deviceName := Some name\<rparr>) (clients s)\<rparr>;
              s2 = (if role = Some ''streamer''
                    then broadcastToMasters (StreamerJoined clientId name)
                           (s1\<lparr>streamers := AList.update clientId
                                  \<lparr>s_deviceName = name, s_producers = [], s_transports = []\<rparr>
                                  (streamers s1)\<rparr>)
                    else if role = Some ''master''
                    then (let s1' = s1\<lparr>masters := (if clientId \<in> set (masters s1) then masters s1
                                                     else masters s1 @ [clientId])\<rparr>
                          in send ws clientId (StreamerList (streamerList s1')) s1')
                    else s1)
          in (Return (), send ws clientId (Registered role name) s2)))"

definition handle_create_transport ::
  "env \<Rightarrow> ident \<Rightarrow> readyState \<Rightarrow> jsval \<Rightarrow> server \<Rightarrow> unit result \<times> server" where
  "handle_create_transport e clientId ws direction s =
     (case createWebRtcTransport e clientId s of
        (Throw err, s1) \<Rightarrow> (Throw err, s1)
      | (Return transportId, s1) \<Rightarrow>
         (let s2 = s1\<lparr>streamers := AList.map_entry clientId
                          (\<lambda>st. st\<lparr>s_transports := s_transports st @ [transportId]\<rparr>)
                          (streamers s1)\<rparr>
          in (Return (), send ws clientId (TransportCreated direction transportId) s2)))"

definition handle_connect_transport ::
  "env \<Rightarrow> ident \<Rightarrow> readyState \<Rightarrow> ident \<Rightarrow> jsval \<Rightarrow> server \<Rightarrow> unit result \<times> server" where
  "handle_connect_transport e clientId ws transportId dtlsParameters s =
     (case connectTransport e transportId dtlsParameters s of
        (Throw err, s1) \<Rightarrow> (Throw err, s1)
      | (Return u, s1) \<Rightarrow> (Return (), send ws clientId (TransportConnected transportId) s1))"

definition handle_produce ::
  "env \<Rightarrow> ident \<Rightarrow> readyState \<Rightarrow> ident \<Rightarrow> string \<Rightarrow> jsval \<Rightarrow> server \<Rightarrow> unit result \<times> server" where
  "handle_produce e clientId ws transportId kind rtpParameters s =
     (case map_of (clients s) clientId of
        None \<Rightarrow> (Throw ''Cannot read properties of undefined (reading 'deviceName')'', s)
      | Some client \<Rightarrow>
         (case createProducer e transportId kind rtpParameters clientId (c_deviceName client) s of
            (Throw err, s1) \<Rightarrow> (Throw err, s1)
          | (Return producerId, s1) \<Rightarrow>
             (let s2 = s1\<lparr>streamers := AList.map_entry clientId
                              (\<lambda>st. st\<lparr>s_producers := s_producers st @ [producerId]\<rparr>)
                              (streamers s1)\<rparr>;
                  s3 = broadcastToMasters
                         (NewProducer producerId clientId (c_deviceName client) kind) s2;
                  s4 = (if kind = ''video''
                        then snd (startRecording e producerId (c_deviceName client) s3)
                        else s3)
              in (Return (), send ws clientId (Produced producerId kind) s4))))"

definition handle_consume ::
  "env \<Rightarrow> ident \<Rightarrow> readyState \<Rightarrow> ident \<Rightarrow> ident \<Rightarrow> jsval \<Rightarrow> server \<Rightarrow> unit result \<times> server" where
  "handle_consume e clientId ws transportId producerId rtpCapabilities s =
     (case createConsumer e transportId producerId rtpCapabilities clientId s of
        (Throw err, s1) \<Rightarrow> (Throw err, s1)
      | (Return (consumerId, pid), s1) \<Rightarrow>
         (Return (), send ws clientId (Consumed consumerId pid) s1))"

definition handle_resume_consumer ::
  "env \<Rightarrow> ident \<Rightarrow> readyState \<Rightarrow> ident \<Rightarrow> server \<Rightarrow> unit result \<times> server" where
  "handle_resume_consumer e clientId ws consumerId s =
     (case resumeConsumer e consumerId s of
        (Throw err, s1) \<Rightarrow> (Throw err, s1)
      | (Return u, s1) \<Rightarrow> (Return (), send ws clientId (ConsumerResumed consumerId) s1))"

definition handle_pan_zoom ::
  "ident \<Rightarrow> jsval option \<Rightarrow> jsval option \<Rightarrow> jsval option \<Rightarrow> server \<Rightarrow> unit result \<times> server" where
  "handle_pan_zoom targetClientId zoom panX panY s =
     (case map_of (clients s) targetClientId of
        Some targetClient \<Rightarrow>
          if c_ws targetClient = OPEN
          then (Return (),
                send (c_ws targetClient) targetClientId (PanZoomCommand zoom panX panY) s)
          else (Return (), s)
      | None \<Rightarrow> (Return (), s))"

text \<open>The loop of stop-streaming and handleDisconnect over the client's producers.\<close>

definition stop_recordings_of :: "env \<Rightarrow> ident \<Rightarrow> server \<Rightarrow> server" where
  "stop_recordings_of e clientId s =
     fold (\<lambda>producer t. snd (stopRecording e (fst producer) t)) (getProducersByClient clientId s) s"

definition handle_stop_streaming ::
  "env \<Rightarrow> ident \<Rightarrow> readyState \<Rightarrow> server \<Rightarrow> unit result \<times> server" where
  "handle_stop_streaming e clientId ws s =
     (case map_of (clients s) clientId of
        None \<Rightarrow> (Throw ''Cannot read properties of undefined (reading 'deviceName')'', s)
      | Some client \<Rightarrow>
         (let s1 = stop_recordings_of e clientId s;
              s2 = cleanupClient e clientId s1;
              s3 = (if map_of (streamers s2) clientId \<noteq> None
                    then (let b = broadcastToMasters
                                    (StreamerLeft clientId (c_deviceName client)) s2
                          in b\<lparr>streamers := AList.delete clientId (streamers b)\<rparr>)
                    else s2);
              s4 = s3\<lparr>clients := AList.map_entry clientId (\<lambda>c. c\<lparr>c_role := None\<rparr>)
                                     (clients s3)\<rparr>
          in (Return (), send ws clientId StreamingStopped s4)))"

definition handleMessage ::
  "env \<Rightarrow> ident \<Rightarrow> readyState \<Rightarrow> message \<Rightarrow> server \<Rightarrow> unit result \<times> server" where
  "handleMessage e clientId ws data s =
     (case data of
        Register role deviceName \<Rightarrow> handle_register clientId ws role deviceName s
      | CreateTransport direction \<Rightarrow> handle_create_transport e clientId ws direction s
      | ConnectTransportMsg transportId dtlsParameters \<Rightarrow>
          handle_connect_transport e clientId ws transportId dtlsParameters s
      | Produce transportId kind rtpParameters \<Rightarrow>
          handle_produce e clientId ws transportId kind rtpParameters s
      | Consume transportId producerId rtpCapabilities \<Rightarrow>
          handle_consume e clientId ws transportId producerId rtpCapabilities s
      | ResumeConsumerMsg consumerId \<Rightarrow> handle_resume_consumer e clientId ws consumerId s
      | PanZoom targetClientId zoom panX panY \<Rightarrow> handle_pan_zoom targetClientId zoom panX panY s
      | GetStreamers \<Rightarrow> (Return (), send ws clientId (StreamerList (streamerList s)) s)
      | GetProducers \<Rightarrow> (Return (), send ws clientId (ProducerList (getProducers s)) s)
      | StopStreaming \<Rightarrow> handle_stop_streaming e clientId ws s
      | Unknown type \<Rightarrow> (Return (), s))"

text \<open>
  The \<open>message\<close> listener: parse, dispatch, and on any exception send \<open>error\<close> with its
  message to the socket the frame came from. A frame that does not parse arrives here as
  the parser's message.
\<close>

datatype inbound = Malformed string | Data message

definition on_message :: "env \<Rightarrow> ident \<Rightarrow> readyState \<Rightarrow> inbound \<Rightarrow> server \<Rightarrow> server" where
  "on_message e clientId ws raw s =
     (case raw of
        Malformed err \<Rightarrow> send ws clientId (ErrorMsg err) s
      | Data d \<Rightarrow>
         (case handleMessage e clientId ws d s of
            (Return u, s') \<Rightarrow> s'
          | (Throw err, s') \<Rightarrow> send ws clientId (ErrorMsg err) s'))"

definition handleDisconnect :: "env \<Rightarrow> ident \<Rightarrow> server \<Rightarrow> server" where
  "handleDisconnect e clientId s =
     (case map_of (clients s) clientId of
        None \<Rightarrow> s
      | Some client \<Rightarrow>
         (let s1 = stop_recordings_of e clientId s;
              s2 = cleanupClient e clientId s1;
              s3 = (if map_of (streamers s2) clientId \<noteq> None
                    then (let b = broadcastToMasters
                                    (StreamerLeft clientId (c_deviceName client)) s2
                          in b\<lparr>streamers := AList.delete clientId (streamers b)\<rparr>)
                    else s2)
          in s3\<lparr>masters := removeAll clientId (masters s3),
                clients := AList.delete clientId (clients s3)\<rparr>))"

text \<open>
  The \<open>connection\<close> listener, for a connection that is let in: a new entry with no role
  and no name, and \<open>welcome\<close> on the fresh socket.
\<close>

definition on_connection :: "ident \<Rightarrow> string \<Rightarrow> server \<Rightarrow> server" where
  "on_connection clientId clientIp s =
     send OPEN clientId (Welcome clientId)
       (s\<lparr>clients := AList.update clientId
             \<lparr>c_ws = OPEN, c_role = None, c_deviceName = None, c_clientIp = clientIp\<rparr>
             (clients s)\<rparr>)"

section \<open>The server as a whole\<close>

text \<open>
  What happens to the process: a connection is accepted, a frame arrives on a client's
  socket, a socket changes state, a socket closes; a pending timer fires; a transport
  reports its DTLS state closed (its listener closes it); the engine closes an object
  and emits the event its listener waits for; an encoder process exits with the capture
  description it was given. Each comes with the environment its handler runs in. The
  state at start has every registry empty, the port counter at 20000 and
  \<open>ffmpegAvailable\<close> as the probe at load time found it.
\<close>

datatype event =
    Connection ident string
  | Message ident inbound
  | SocketState ident readyState
  | Disconnect ident
  | TimerFires nat
  | DtlsClosed ident
  | EngineEmits resource
  | EncoderExit string

fun step :: "env \<times> event \<Rightarrow> server \<Rightarrow> server" where
  "step (e, Connection clientId clientIp) s = on_connection clientId clientIp s"
| "step (e, Message clientId raw) s =
     (case map_of (clients s) clientId of
        None \<Rightarrow> s
      | Some client \<Rightarrow> on_message e clientId (c_ws client) raw s)"
| "step (e, SocketState clientId ws) s =
     s\<lparr>clients := AList.map_entry clientId (\<lambda>c. c\<lparr>c_ws := ws\<rparr>) (clients s)\<rparr>"
| "step (e, Disconnect clientId) s = handleDisconnect e clientId s"
| "step (e, TimerFires n) s =
     (if n < length (timers s)
      then run_timer e (snd (timers s ! n)) (s\<lparr>timers := take n (timers s) @ drop (Suc n) (timers s)\<rparr>)
      else s)"
| "step (e, DtlsClosed transportId) s = close_resource e (Transport transportId) s"
| "step (e, EngineEmits r) s = fire r (mark_closed r s)"
| "step (e, EncoderExit sdpPath) s = unlink_if_exists e sdpPath s"

definition run :: "(env \<times> event) list \<Rightarrow> server \<Rightarrow> server" where
  "run evs s = fold step evs s"

definition init :: "bool \<Rightarrow> string list \<Rightarrow> server" where
  "init ffmpegFound paths =
     \<lparr>clients = [], streamers = [], masters = [], transports = [], producers = [],
      consumers = [], recordings = [], nextRtpPort = 20000, ffmpegAvailable = ffmpegFound,
      closed = [], killed = [], fs = paths, timers = [], effects = [], sent = []\<rparr>"

section \<open>Invariants of the recorder\<close>

text \<open>
  The part of the state recorder.js owns, the range the port counter stays in, and what
  holds of that part in every state the server reaches: \<open>ffmpegAvailable\<close> keeps the
  value found at load time, the counter stays in range, the recordings map has one entry
  per key, and it is empty while recording is disabled.
\<close>

definition rec_view :: "server \<Rightarrow> int \<times> bool \<times> (ident \<times> recording) list" where
  "rec_view s = (nextRtpPort s, ffmpegAvailable s, recordings s)"

definition port_ok :: "int \<Rightarrow> bool" where
  "port_ok n \<longleftrightarrow> even n \<and> 20000 \<le> n \<and> n \<le> 30000"

definition rec_inv :: "bool \<Rightarrow> server \<Rightarrow> bool" where
  "rec_inv b s \<longleftrightarrow>
     ffmpegAvailable s = b \<and> port_ok (nextRtpPort s) \<and> distinct (map fst (recordings s))
     \<and> (b \<or> recordings s = [])"

section \<open>Views of the signalling state\<close>

text \<open>
  The part of the state websocket.js owns. \<open>shrinks s s'\<close>: every entry of the three
  registries of mediasoup.js in \<open>s'\<close> was there in \<open>s\<close>. \<open>open_masters\<close>: the members of
  \<open>masters\<close> that broadcastToMasters writes to, those with a client entry whose socket is
  OPEN, in the order of the set.
\<close>

definition ws_view ::
  "server \<Rightarrow> (ident \<times> client) list \<times> (ident \<times> streamer) list \<times> ident list \<times> (ident \<times> outbound) list" where
  "ws_view s = (clients s, streamers s, masters s, sent s)"

definition shrinks :: "server \<Rightarrow> server \<Rightarrow> bool" where
  "shrinks s s' \<longleftrightarrow>
     set (producers s') \<subseteq> set (producers s) \<and> set (consumers s') \<subseteq> set (consumers s)
     \<and> set (transports s') \<subseteq> set (transports s)"

definition open_masters :: "server \<Rightarrow> ident list" where
  "open_masters s =
     filter (\<lambda>masterId. case map_of (clients s) masterId of
                          Some master \<Rightarrow> c_ws master = OPEN
                        | None \<Rightarrow> False)
            (masters s)"

text \<open>
  The keys of \<open>clients\<close> and \<open>streamers\<close> and the members of \<open>masters\<close>, and what a
  frame and an event do to them: connecting appends a client, \<open>register\<close> appends a
  streamer or a master not yet there, \<open>stop-streaming\<close> removes the streamer, a
  disconnect removes all three; a frame from a client that is not connected does
  nothing, and neither do timers, the engine's events and the encoder's exit.
\<close>

definition key_view :: "server \<Rightarrow> ident list \<times> ident list \<times> ident list" where
  "key_view s = (map fst (clients s), map fst (streamers s), masters s)"

definition msg_keys ::
  "ident \<Rightarrow> message \<Rightarrow> ident list \<times> ident list \<times> ident list
     \<Rightarrow> ident list \<times> ident list \<times> ident list" where
  "msg_keys c d v =
     (case v of (conn, regs, ms) \<Rightarrow>
        (case d of
           Register role name \<Rightarrow>
             (conn,
              if c \<in> set conn \<and> role = Some ''streamer'' \<and> c \<notin> set regs
              then regs @ [c] else regs,
              if c \<in> set conn \<and> role = Some ''master'' \<and> c \<notin> set ms
              then ms @ [c] else ms)
         | StopStreaming \<Rightarrow> (conn, if c \<in> set conn then removeAll c regs else regs, ms)
         | _ \<Rightarrow> v))"

definition key_step ::
  "event \<Rightarrow> ident list \<times> ident list \<times> ident list \<Rightarrow> ident list \<times> ident list \<times> ident list" where
  "key_step ev v =
     (case v of (conn, regs, ms) \<Rightarrow>
        (case ev of
           Connection c ip \<Rightarrow> (if c \<in> set conn then conn else conn @ [c], regs, ms)
         | Message c raw \<Rightarrow>
             (if c \<in> set conn
              then (case raw of Malformed m \<Rightarrow> v | Data d \<Rightarrow> msg_keys c d v)
              else v)
         | SocketState c w \<Rightarrow> v
         | TimerFires n \<Rightarrow> v
         | DtlsClosed t \<Rightarrow> v
         | EngineEmits r \<Rightarrow> v
         | EncoderExit p \<Rightarrow> v
         | Disconnect c \<Rightarrow>
             (removeAll c conn,
              if c \<in> set conn then removeAll c regs else regs,
              if c \<in> set conn then removeAll c ms else ms)))"

text \<open>
  The StreamerRecords, read off the events alone: \<open>conn\<close> are the connected identities,
  \<open>recs\<close> the identities that hold a StreamerRecord, in the order in which the record
  was created. A \<open>register\<close> with role \<open>streamer\<close> from a connected identity without a
  record creates one, at the end; \<open>stop-streaming\<close> and a disconnect remove it; nothing
  else touches it. So an identity that registers again as streamer while it holds a
  record keeps its place, and one that registers again with another role keeps its
  record.
\<close>

fun record_step :: "event \<Rightarrow> ident list \<times> ident list \<Rightarrow> ident list \<times> ident list" where
  "record_step (Connection c ip) (conn, recs) = (if c \<in> set conn then conn else conn @ [c], recs)"
| "record_step (Message c (Data (Register role name))) (conn, recs) =
     (conn, if c \<in> set conn \<and> role = Some ''streamer'' \<and> c \<notin> set recs
            then recs @ [c] else recs)"
| "record_step (Message c (Data StopStreaming)) (conn, recs) =
     (conn, if c \<in> set conn then removeAll c recs else recs)"
| "record_step (Disconnect c) (conn, recs) =
     (removeAll c conn, if c \<in> set conn then removeAll c recs else recs)"
| "record_step ev x = x"

definition record_order :: "(env \<times> event) list \<Rightarrow> ident list" where
  "record_order evs = snd (fold record_step (map snd evs) ([], []))"

text \<open>
  The registered streamers of a state: the identities whose role is \<open>streamer\<close>, as the
  specification has it (a StreamerRecord exists only for identities with role streamer).
  \<open>role_ok\<close>: the client keys are distinct and every identity whose role is
  \<open>streamer\<close> holds a StreamerRecord.
\<close>

definition registered_streamers :: "server \<Rightarrow> ident list" where
  "registered_streamers s =
     map fst (filter (\<lambda>(id, c). c_role c = Some ''streamer'') (clients s))"

definition role_view :: "server \<Rightarrow> (ident \<times> client) list \<times> ident list" where
  "role_view s = (clients s, map fst (streamers s))"

definition role_ok :: "(ident \<times> client) list \<times> ident list \<Rightarrow> bool" where
  "role_ok v \<longleftrightarrow>
     distinct (map fst (fst v))
     \<and> (\<forall>x \<in> set (fst v). c_role (snd x) = Some ''streamer'' \<longrightarrow> fst x \<in> set (snd v))"

section \<open>A concrete run\<close>

text \<open>
  An environment in which every external call succeeds, and a morning at the front
  door: a client connects, registers as a streamer, creates a transport and produces a
  video track, which starts a recording.
\<close>

definition env0 :: env where
  "env0 = \<lparr>e_now = 5000, e_iso = ''2024-01-01T00:00:00.000Z'',
     e_recordingsDir = ''/srv/recordings'',
     e_cascade = (\<lambda>r. []), e_createWebRtcTransport = Inr ''t1'', e_connect = None,
     e_produce = Inr ''p1'', e_canConsume = (\<lambda>p c. True), e_consume = Inr ''k1'',
     e_resume = None, e_mkdir = None, e_createPlainTransport = Inr ''pt1'',
     e_recConsume = Inr \<lparr>cd_id = ''rc1'', cd_codec = Some (''video/VP8'', 101, 90000),
                          cd_ssrc = Some 1234\<rparr>,
     e_plainConnect = None, e_writeFile = None, e_spawn = 1, e_recResume = None,
     e_stdinWrite = None, e_kill = True, e_unlink = None\<rparr>"

definition front_door :: "(env \<times> event) list" where
  "front_door =
     [(env0, Connection ''c1'' ''10.0.0.2''),
      (env0, Message ''c1'' (Data (Register (Some ''streamer'') (Some ''Front Door'')))),
      (env0, Message ''c1'' (Data (CreateTransport ''send''))),
      (env0, Message ''c1'' (Data (Produce ''t1'' ''video'' ''{}'')))]"

definition state_streaming :: server where
  "state_streaming = run front_door (init True [''/srv/recordings''])"

text \<open>A later environment: the engine and the encoder hand out fresh handles.\<close>

definition env1 :: env where
  "env1 = env0\<lparr>e_now := 9000, e_iso := ''2024-01-01T00:00:04.000Z'',
               e_createPlainTransport := Inr ''pt2'',
               e_recConsume := Inr \<lparr>cd_id = ''rc2'', cd_codec = Some (''video/VP8'', 101, 90000),
                                    cd_ssrc = Some 1234\<rparr>,
               e_spawn := 2\<rparr>"

text \<open>
  The day goes on: a second camera connects and registers without a name, a viewer
  connects, and registers. In \<open>state_closing\<close> the first camera's socket has begun to
  close. \<open>env_strict\<close> is an engine that can consume nothing.
\<close>

definition back_yard :: "(env \<times> event) list" where
  "back_yard =
     [(env0, Connection ''c2'' ''10.0.0.3''),
      (env0, Message ''c2'' (Data (Register (Some ''streamer'') None)))]"

definition viewer_connects :: "(env \<times> event) list" where
  "viewer_connects = [(env0, Connection ''m1'' ''10.0.0.9'')]"

definition viewer_registers :: "(env \<times> event) list" where
  "viewer_registers = [(env0, Message ''m1'' (Data (Register (Some ''master'') (Some ''Desk''))))]"

definition state_arrived :: server where
  "state_arrived = run (front_door @ back_yard @ viewer_connects) (init True [''/srv/recordings''])"

definition state_watched :: server where
  "state_watched =
     run (front_door @ back_yard @ viewer_connects @ viewer_registers)
       (init True [''/srv/recordings''])"

definition state_closing :: server where
  "state_closing = step (env0, SocketState ''c1'' CLOSING) state_watched"

definition env_strict :: env where
  "env_strict = env0\<lparr>e_canConsume := (\<lambda>p c. False)\<rparr>"

text \<open>
  Two more turns of the day. The front door, streaming, registers again as a viewer
  before \<open>m1\<close> connects (\<open>state_switched\<close>). Or the front door's transport reports its
  DTLS state closed, the engine emitting \<open>transportclose\<close> on its producer \<open>p1\<close>
  (\<open>state_dtls_closed\<close>), and then the front door sends \<open>stop-streaming\<close>. \<open>session1\<close>
  is the recording of \<open>p1\<close>.
\<close>

definition switches :: "(env \<times> event) list" where
  "switches = [(env0, Message ''c1'' (Data (Register (Some ''master'') (Some ''Front Door''))))]"

definition state_switched :: server where
  "state_switched =
     run (front_door @ switches @ viewer_connects) (init True [''/srv/recordings''])"

definition env_dtls :: env where
  "env_dtls = env0\<lparr>e_cascade := (\<lambda>r. if r = Transport ''t1'' then [Producer ''p1''] else [])\<rparr>"

definition dtls_closes :: "(env \<times> event) list" where
  "dtls_closes = [(env_dtls, DtlsClosed ''t1'')]"

definition stops :: "(env \<times> event) list" where
  "stops = [(env1, Message ''c1'' (Data StopStreaming))]"

definition state_dtls_closed :: server where
  "state_dtls_closed = run (front_door @ dtls_closes) (init True [''/srv/recordings''])"

definition session1 :: recording where
  "session1 = \<lparr>r_plainTransport = ''pt1'', r_consumer = ''rc1'', r_ffmpeg = 1,
       r_filepath = ''/srv/recordings/Front_Door_2024-01-01T00-00-00-000Z.mkv'',
       r_sdpPath = ''/srv/recordings/p1.sdp'', r_deviceName = Some ''Front Door'',
       r_rtpPort = 20000, r_startTime = 5000\<rparr>"

section \<open>The recorder's part of the state is left alone\<close>


declare fire.simps [simp del]

text \<open>
  Nothing outside recorder.js writes \<open>nextRtpPort\<close>, \<open>ffmpegAvailable\<close> or
  \<open>recordings\<close>: closing engine objects, cleaning up, sending and the handlers that do
  not record leave that view as it is.
\<close>

lemma rec_view_updates [simp]:
  "rec_view (s\<lparr>clients := a\<rparr>) = rec_view s"
  "rec_view (s\<lparr>streamers := b\<rparr>) = rec_view s"
  "rec_view (s\<lparr>masters := c\<rparr>) = rec_view s"
  "rec_view (s\<lparr>transports := d\<rparr>) = rec_view s"
  "rec_view (s\<lparr>producers := f\<rparr>) = rec_view s"
  "rec_view (s\<lparr>consumers := g\<rparr>) = rec_view s"
  "rec_view (s\<lparr>closed := h\<rparr>) = rec_view s"
  "rec_view (s\<lparr>fs := i\<rparr>) = rec_view s"
  "rec_view (s\<lparr>timers := j\<rparr>) = rec_view s"
  "rec_view (s\<lparr>killed := m\<rparr>) = rec_view s"
  "rec_view (s\<lparr>effects := k\<rparr>) = rec_view s"
  "rec_view (s\<lparr>sent := l\<rparr>) = rec_view s"
  by (simp_all add: rec_view_def)

lemma rec_view_fire [simp]: "rec_view (fire r s) = rec_view s"
  by (cases r) (simp_all add: fire.simps)

lemma rec_view_mark_closed [simp]: "rec_view (mark_closed r s) = rec_view s"
  by (simp add: mark_closed_def)

lemma rec_view_cascade [simp]:
  "rec_view (fold (\<lambda>r' t. fire r' (mark_closed r' t)) rs s) = rec_view s"
  by (induction rs arbitrary: s) simp_all

lemma rec_view_close_resource [simp]: "rec_view (close_resource e r s) = rec_view s"
  by (simp add: close_resource_def Let_def)

lemma rec_view_kill_process [simp]: "rec_view (kill_process e h sg s) = rec_view s"
  by (simp add: kill_process_def)

lemma rec_view_unlink_if_exists [simp]: "rec_view (unlink_if_exists e p s) = rec_view s"
  by (simp add: unlink_if_exists_def split: option.splits)

lemma rec_view_run_timer [simp]: "rec_view (run_timer e t s) = rec_view s"
  by (cases t) (simp_all add: Let_def split: option.splits)

lemma rec_view_cleanup_producers [simp]:
  "rec_view (cleanup_producers e c l s) = rec_view s"
  by (induction l arbitrary: s) auto

lemma rec_view_cleanup_consumers [simp]:
  "rec_view (cleanup_consumers e c l s) = rec_view s"
  by (induction l arbitrary: s) auto

lemma rec_view_cleanup_transports [simp]:
  "rec_view (cleanup_transports e c l s) = rec_view s"
  by (induction l arbitrary: s) auto

lemma rec_view_cleanupClient [simp]: "rec_view (cleanupClient e c s) = rec_view s"
  by (simp add: cleanupClient_def Let_def)

lemma rec_view_send [simp]: "rec_view (send ws c m s) = rec_view s"
  by (simp add: send_def)

lemma rec_view_broadcast_fold:
  "rec_view (fold (\<lambda>masterId t.
             case map_of (clients t) masterId of
               Some master \<Rightarrow> if c_ws master = OPEN then send (c_ws master) masterId msg t else t
             | None \<Rightarrow> t) ms s) = rec_view s"
  by (induction ms arbitrary: s) (auto split: option.splits)

lemma rec_view_broadcastToMasters [simp]: "rec_view (broadcastToMasters m s) = rec_view s"
  by (simp add: broadcastToMasters_def rec_view_broadcast_fold)

lemma rec_view_createWebRtcTransport [simp]:
  "rec_view (snd (createWebRtcTransport e c s)) = rec_view s"
  by (simp add: createWebRtcTransport_def split: sum.splits)

lemma rec_view_connectTransport [simp]:
  "rec_view (snd (connectTransport e t d s)) = rec_view s"
  by (simp add: connectTransport_def split: option.splits)

lemma rec_view_createProducer [simp]:
  "rec_view (snd (createProducer e t k r c d s)) = rec_view s"
  by (simp add: createProducer_def split: option.splits sum.splits)

lemma rec_view_createConsumer [simp]:
  "rec_view (snd (createConsumer e t p r c s)) = rec_view s"
  by (simp add: createConsumer_def split: option.splits sum.splits)

lemma rec_view_resumeConsumer [simp]:
  "rec_view (snd (resumeConsumer e c s)) = rec_view s"
  by (simp add: resumeConsumer_def split: option.splits)

lemma rec_view_handle_register [simp]:
  "rec_view (snd (handle_register c ws r d s)) = rec_view s"
  by (simp add: handle_register_def Let_def split: option.splits)

lemma rec_view_handle_create_transport [simp]:
  "rec_view (snd (handle_create_transport e c ws d s)) = rec_view s"
proof (cases "createWebRtcTransport e c s")
  case (Pair r s1)
  have "rec_view s1 = rec_view s"
    using rec_view_createWebRtcTransport [of e c s] Pair by simp
  then show ?thesis
    by (cases r) (simp_all add: handle_create_transport_def Pair Let_def)
qed

lemma rec_view_handle_connect_transport [simp]:
  "rec_view (snd (handle_connect_transport e c ws t d s)) = rec_view s"
proof (cases "connectTransport e t d s")
  case (Pair r s1)
  have "rec_view s1 = rec_view s"
    using rec_view_connectTransport [of e t d s] Pair by simp
  then show ?thesis
    by (cases r) (simp_all add: handle_connect_transport_def Pair)
qed

lemma rec_view_handle_consume [simp]:
  "rec_view (snd (handle_consume e c ws t p r s)) = rec_view s"
proof (cases "createConsumer e t p r c s")
  case (Pair res s1)
  have "rec_view s1 = rec_view s"
    using rec_view_createConsumer [of e t p r c s] Pair by simp
  then show ?thesis
    by (cases res) (simp_all add: handle_consume_def Pair split: prod.splits)
qed

lemma rec_view_handle_resume_consumer [simp]:
  "rec_view (snd (handle_resume_consumer e c ws k s)) = rec_view s"
proof (cases "resumeConsumer e k s")
  case (Pair res s1)
  have "rec_view s1 = rec_view s"
    using rec_view_resumeConsumer [of e k s] Pair by simp
  then show ?thesis
    by (cases res) (simp_all add: handle_resume_consumer_def Pair)
qed

lemma rec_view_handle_pan_zoom [simp]:
  "rec_view (snd (handle_pan_zoom t z x y s)) = rec_view s"
  by (simp add: handle_pan_zoom_def split: option.splits)


text \<open>
  startRecording moves the port counter at most one step and adds at most one entry;
  stopRecording deletes one. Both keep the invariant.
\<close>

lemma rec_inv_view: "rec_view s' = rec_view s \<Longrightarrow> rec_inv b s' = rec_inv b s"
  by (simp add: rec_view_def rec_inv_def)

lemma port_ok_next: "port_ok n \<Longrightarrow> port_ok (if n + 2 > 30000 then 20000 else n + 2)"
  by (auto simp: port_ok_def)

lemma rec_spawn_view:
  "rec_view (snd (rec_spawn e p d fp fn sp port pt c s)) = rec_view s \<or>
   (\<exists>r. rec_view (snd (rec_spawn e p d fp fn sp port pt c s))
         = (nextRtpPort s, ffmpegAvailable s, AList.update p r (recordings s)))"
  by (auto simp: rec_spawn_def Let_def rec_view_def split: option.splits)

lemma rec_connect_view:
  "rec_view (snd (rec_connect e p d dir fp fn port pt c sd s)) = rec_view s \<or>
   (\<exists>r. rec_view (snd (rec_connect e p d dir fp fn port pt c sd s))
         = (nextRtpPort s, ffmpegAvailable s, AList.update p r (recordings s)))"
proof (cases "e_plainConnect e = None \<and> e_writeFile e = None")
  case True
  let ?s1 = "s\<lparr>effects := effects s @ [PlainConnect pt port (port + 1)]\<rparr>"
  let ?sp = "path_join dir (p @ ''.sdp'')"
  let ?s2 = "?s1\<lparr>fs := (if ?sp \<in> set (fs ?s1) then fs ?s1 else fs ?s1 @ [?sp]),
                 effects := effects ?s1 @ [WriteFile ?sp sd]\<rparr>"
  have eq: "rec_connect e p d dir fp fn port pt c sd s = rec_spawn e p d fp fn ?sp port pt c ?s2"
    using True by (simp add: rec_connect_def Let_def)
  have v: "rec_view ?s2 = rec_view s" by simp
  show ?thesis
    using rec_spawn_view [of e p d fp fn ?sp port pt c ?s2] v
    unfolding eq by (simp add: rec_view_def)
next
  case False
  then show ?thesis
    by (auto simp: rec_connect_def Let_def split: option.splits)
qed

lemma startRecording_body_view:
  "\<exists>n rs. rec_view (snd (startRecording_body e p d dir s)) = (n, ffmpegAvailable s, rs)
     \<and> (n = nextRtpPort s \<or> n = (if nextRtpPort s + 2 > 30000 then 20000 else nextRtpPort s + 2))
     \<and> (rs = recordings s \<or> (\<exists>r. rs = AList.update p r (recordings s)))"
proof (cases "map_of (producers s) p")
  case None
  then show ?thesis by (simp add: startRecording_body_def rec_view_def)
next
  case (Some pd)
  let ?s1 = "snd (getNextPort s)"
  have v1: "rec_view ?s1 = (if nextRtpPort s + 2 > 30000 then 20000 else nextRtpPort s + 2,
              ffmpegAvailable s, recordings s)"
    by (simp add: getNextPort_def Let_def rec_view_def)
  show ?thesis
  proof (cases "e_createPlainTransport e")
    case (Inl a)
    then show ?thesis using Some v1 by (simp add: startRecording_body_def Let_def)
  next
    case (Inr pt)
    let ?s2 = "?s1\<lparr>effects := effects ?s1 @ [CreatePlainTransport pt]\<rparr>"
    have v2: "rec_view ?s2 = rec_view ?s1" by simp
    show ?thesis
    proof (cases "e_recConsume e")
      case (Inl a)
      then show ?thesis using Some Inr v1 v2
        by (simp add: startRecording_body_def Let_def)
    next
      case (Inr cd)
      let ?s3 = "?s2\<lparr>effects := effects ?s2 @ [ConsumeOn pt p (cd_id cd)]\<rparr>"
      have v3: "rec_view ?s3 = rec_view ?s1" by simp
      show ?thesis
      proof (cases "\<exists>m pty cl cn ss. cd_codec cd = Some (m, pty, cl) \<and> codecName_of m = Some cn
                      \<and> cd_ssrc cd = Some ss")
        case True
        then obtain m pty cl cn ss where c: "cd_codec cd = Some (m, pty, cl)"
          "codecName_of m = Some cn" "cd_ssrc cd = Some ss" by blast
        let ?fn = "safeDeviceName d @ ''_'' @ timestamp_of (e_iso e) @ ''.mkv''"
        let ?sd = "\<lparr>sdp_port = fst (getNextPort s), sdp_payloadType = pty,
                     sdp_codecName = cn, sdp_clockRate = cl, sdp_ssrc = ss\<rparr>"
        have eq: "startRecording_body e p d dir s =
            rec_connect e p d dir (path_join dir ?fn) ?fn (fst (getNextPort s)) pt (cd_id cd) ?sd ?s3"
          using Some \<open>e_createPlainTransport e = Inr pt\<close> Inr c
          by (simp add: startRecording_body_def Let_def)
        show ?thesis
          using rec_connect_view [of e p d dir "path_join dir ?fn" ?fn "fst (getNextPort s)" pt
              "cd_id cd" ?sd ?s3] v3 v1
          unfolding eq by (auto simp: rec_view_def)
      next
        case False
        then have "startRecording_body e p d dir s = (None, ?s3)"
          using Some \<open>e_createPlainTransport e = Inr pt\<close> Inr
          by (auto simp: startRecording_body_def Let_def split: option.splits)
        then show ?thesis using v3 v1 by simp
      qed
    qed
  qed
qed

lemma rec_inv_update:
  "rec_inv True s \<Longrightarrow> rec_view s' = (n, True, rs) \<Longrightarrow>
   n = nextRtpPort s \<or> n = (if nextRtpPort s + 2 > 30000 then 20000 else nextRtpPort s + 2) \<Longrightarrow>
   rs = recordings s \<or> (\<exists>r. rs = AList.update p r (recordings s)) \<Longrightarrow> rec_inv True s'"
  using port_ok_next [of "nextRtpPort s"]
  by (auto simp: rec_inv_def rec_view_def distinct_update)

lemma startRecording_gate:
  "\<not> ffmpegAvailable s \<Longrightarrow> startRecording e p d s = (Return None, s)"
  by (simp add: startRecording_def)

lemma rec_inv_startRecording: "rec_inv b s \<Longrightarrow> rec_inv b (snd (startRecording e p d s))"
proof (cases b)
  case False
  assume "rec_inv b s"
  then show ?thesis using False by (simp add: rec_inv_def startRecording_gate)
next
  case True
  assume inv: "rec_inv b s"
  then have av: "ffmpegAvailable s" using True by (simp add: rec_inv_def)
  show ?thesis
  proof (cases "e_recordingsDir e \<in> set (fs s) \<or> e_mkdir e = None")
    case False
    then have "startRecording e p d s = (Throw (the (e_mkdir e)), s)"
      using av by (auto simp: startRecording_def Let_def)
    then show ?thesis using inv by simp
  next
    case ok: True
    define s0 where "s0 = (if e_recordingsDir e \<in> set (fs s) then s
       else s\<lparr>fs := fs s @ [e_recordingsDir e], effects := effects s @ [Mkdir (e_recordingsDir e)]\<rparr>)"
    have v0: "rec_view s0 = rec_view s" by (simp add: s0_def)
    have eq: "snd (startRecording e p d s) = snd (startRecording_body e p d (e_recordingsDir e) s0)"
      using av ok by (auto simp: startRecording_def Let_def s0_def split: prod.splits)
    have inv0: "rec_inv True s0" using inv True rec_inv_view [OF v0] by simp
    obtain n rs where b: "rec_view (snd (startRecording_body e p d (e_recordingsDir e) s0))
          = (n, ffmpegAvailable s0, rs)"
      "n = nextRtpPort s0 \<or> n = (if nextRtpPort s0 + 2 > 30000 then 20000 else nextRtpPort s0 + 2)"
      "rs = recordings s0 \<or> (\<exists>r. rs = AList.update p r (recordings s0))"
      using startRecording_body_view [of e p d "e_recordingsDir e" s0] by blast
    have "ffmpegAvailable s0" using inv0 by (simp add: rec_inv_def)
    then show ?thesis
      using rec_inv_update [OF inv0 _ b(2) b(3)] b(1) True unfolding eq by simp
  qed
qed

lemma stopRecording_view:
  "rec_view (snd (stopRecording e p s))
     = (nextRtpPort s, ffmpegAvailable s, AList.delete p (recordings s))"
proof (cases "map_of (recordings s) p")
  case None
  then have "p \<notin> fst ` set (recordings s)" by (simp add: map_of_eq_None_iff)
  then show ?thesis using None by (simp add: stopRecording_def rec_view_def)
next
  case (Some r)
  have "rec_view (if Consumer (r_consumer r) \<notin> set (closed s)
                  then close_resource e (Consumer (r_consumer r)) s else s) = rec_view s"
    by simp
  then show ?thesis using Some
    by (simp add: stopRecording_def Let_def rec_view_def)
qed

lemma rec_inv_stopRecording: "rec_inv b s \<Longrightarrow> rec_inv b (snd (stopRecording e p s))"
  using stopRecording_view [of e p s]
  by (auto simp: rec_inv_def rec_view_def distinct_delete)

lemma rec_inv_stop_fold:
  "rec_inv b s \<Longrightarrow> rec_inv b (fold (\<lambda>producer t. snd (stopRecording e (fst producer) t)) ps s)"
  by (induction ps arbitrary: s) (simp_all add: rec_inv_stopRecording)

lemma rec_inv_stop_recordings_of: "rec_inv b s \<Longrightarrow> rec_inv b (stop_recordings_of e c s)"
  by (simp add: stop_recordings_of_def rec_inv_stop_fold)


text \<open>The invariant through the handlers, the listeners and every event.\<close>

lemma rec_inv_alt:
  "rec_inv b s = (case rec_view s of (n, a, rs) \<Rightarrow>
      a = b \<and> port_ok n \<and> distinct (map fst rs) \<and> (b \<or> rs = []))"
  by (simp add: rec_inv_def rec_view_def)

lemma rec_inv_handle_produce:
  assumes "rec_inv b s"
  shows "rec_inv b (snd (handle_produce e c ws t k r s))"
proof (cases "map_of (clients s) c")
  case None
  then show ?thesis using assms by (simp add: handle_produce_def)
next
  case (Some cl)
  show ?thesis
  proof (cases "createProducer e t k r c (c_deviceName cl) s")
    case (Pair res s1)
    have v1: "rec_view s1 = rec_view s"
      using rec_view_createProducer [of e t k r c "c_deviceName cl" s] Pair by simp
    show ?thesis
    proof (cases res)
      case (Throw m)
      then show ?thesis using Some Pair assms rec_inv_view [OF v1]
        by (simp add: handle_produce_def)
    next
      case (Return pid)
      let ?s3 = "broadcastToMasters (NewProducer pid c (c_deviceName cl) k)
                   (s1\<lparr>streamers := AList.map_entry c
                          (\<lambda>st. st\<lparr>s_producers := s_producers st @ [pid]\<rparr>) (streamers s1)\<rparr>)"
      have "rec_view ?s3 = rec_view s" using v1 by simp
      then have i3: "rec_inv b ?s3" using assms rec_inv_view by blast
      have i4: "rec_inv b (if k = ''video'' then snd (startRecording e pid (c_deviceName cl) ?s3)
                           else ?s3)"
        using i3 by (auto intro: rec_inv_startRecording)
      have "rec_inv b (send ws c (Produced pid k)
               (if k = ''video'' then snd (startRecording e pid (c_deviceName cl) ?s3) else ?s3))"
        using i4 rec_inv_view [OF rec_view_send] by blast
      then show ?thesis using Some Pair Return
        by (simp add: handle_produce_def Let_def)
    qed
  qed
qed

lemma rec_inv_leave:
  assumes "rec_inv b s"
  shows "rec_inv b (if map_of (streamers (cleanupClient e c (stop_recordings_of e c s))) c \<noteq> None
            then (let bb = broadcastToMasters m (cleanupClient e c (stop_recordings_of e c s))
                  in bb\<lparr>streamers := AList.delete c (streamers bb)\<rparr>)
            else cleanupClient e c (stop_recordings_of e c s))"
proof -
  have "rec_inv b (stop_recordings_of e c s)"
    using assms by (rule rec_inv_stop_recordings_of)
  then have "rec_inv b (cleanupClient e c (stop_recordings_of e c s))"
    using rec_inv_view [OF rec_view_cleanupClient] by blast
  then show ?thesis
    by (simp add: Let_def rec_inv_alt)
qed

lemma rec_inv_handle_stop_streaming:
  assumes "rec_inv b s"
  shows "rec_inv b (snd (handle_stop_streaming e c ws s))"
proof (cases "map_of (clients s) c")
  case None
  then show ?thesis using assms by (simp add: handle_stop_streaming_def)
next
  case (Some cl)
  let ?s3 = "if map_of (streamers (cleanupClient e c (stop_recordings_of e c s))) c \<noteq> None
            then (let bb = broadcastToMasters (StreamerLeft c (c_deviceName cl))
                             (cleanupClient e c (stop_recordings_of e c s))
                  in bb\<lparr>streamers := AList.delete c (streamers bb)\<rparr>)
            else cleanupClient e c (stop_recordings_of e c s)"
  have i3: "rec_inv b ?s3" using assms by (rule rec_inv_leave)
  have "rec_view (send ws c StreamingStopped
          (?s3\<lparr>clients := AList.map_entry c (\<lambda>c. c\<lparr>c_role := None\<rparr>) (clients ?s3)\<rparr>)) = rec_view ?s3"
    by simp
  then have "rec_inv b (send ws c StreamingStopped
          (?s3\<lparr>clients := AList.map_entry c (\<lambda>c. c\<lparr>c_role := None\<rparr>) (clients ?s3)\<rparr>))"
    using i3 rec_inv_view by blast
  then show ?thesis using Some
    by (simp add: handle_stop_streaming_def Let_def)
qed

lemma rec_inv_handleDisconnect:
  assumes "rec_inv b s"
  shows "rec_inv b (handleDisconnect e c s)"
proof (cases "map_of (clients s) c")
  case None
  then show ?thesis using assms by (simp add: handleDisconnect_def)
next
  case (Some cl)
  let ?s3 = "if map_of (streamers (cleanupClient e c (stop_recordings_of e c s))) c \<noteq> None
            then (let bb = broadcastToMasters (StreamerLeft c (c_deviceName cl))
                             (cleanupClient e c (stop_recordings_of e c s))
                  in bb\<lparr>streamers := AList.delete c (streamers bb)\<rparr>)
            else cleanupClient e c (stop_recordings_of e c s)"
  have i3: "rec_inv b ?s3" using assms by (rule rec_inv_leave)
  have "rec_view (?s3\<lparr>masters := removeAll c (masters ?s3),
                      clients := AList.delete c (clients ?s3)\<rparr>) = rec_view ?s3"
    by simp
  then have "rec_inv b (?s3\<lparr>masters := removeAll c (masters ?s3),
                      clients := AList.delete c (clients ?s3)\<rparr>)"
    using i3 rec_inv_view by blast
  then show ?thesis using Some
    by (simp add: handleDisconnect_def Let_def)
qed

lemma rec_inv_handleMessage:
  assumes "rec_inv b s"
  shows "rec_inv b (snd (handleMessage e c ws d s))"
proof (cases d)
  case (Produce t k r)
  then show ?thesis using assms by (simp add: handleMessage_def rec_inv_handle_produce)
next
  case StopStreaming
  then show ?thesis using assms by (simp add: handleMessage_def rec_inv_handle_stop_streaming)
qed (use assms in \<open>simp_all add: handleMessage_def rec_inv_alt\<close>)


lemma on_message_Malformed: "on_message e c ws (Malformed m) s = send ws c (ErrorMsg m) s"
  by (simp add: on_message_def)

lemma on_message_Return:
  "handleMessage e c ws d s = (Return u, s1) \<Longrightarrow> on_message e c ws (Data d) s = s1"
  unfolding on_message_def by simp

lemma on_message_Throw:
  "handleMessage e c ws d s = (Throw err, s1) \<Longrightarrow>
   on_message e c ws (Data d) s = send ws c (ErrorMsg err) s1"
  unfolding on_message_def by simp

lemma rec_inv_on_message:
  assumes "rec_inv b s"
  shows "rec_inv b (on_message e c ws raw s)"
proof (cases raw)
  case (Malformed m)
  have "rec_view (send ws c (ErrorMsg m) s) = rec_view s" by simp
  then have "rec_inv b (send ws c (ErrorMsg m) s)" using assms rec_inv_view by blast
  then show ?thesis unfolding Malformed on_message_Malformed .
next
  case (Data d)
  obtain res s1 where h: "handleMessage e c ws d s = (res, s1)"
    by (cases "handleMessage e c ws d s")
  have i: "rec_inv b s1"
    using rec_inv_handleMessage [OF assms, of e c ws d] unfolding h by simp
  show ?thesis
  proof (cases res)
    case (Return u)
    show ?thesis 
      unfolding Data on_message_Return [OF h [unfolded Return]] by (rule i)
  next
    case (Throw err)
    have "rec_view (send ws c (ErrorMsg err) s1) = rec_view s1" by simp
    then have "rec_inv b (send ws c (ErrorMsg err) s1)"
      using i rec_inv_view by blast
    then show ?thesis
      unfolding Data on_message_Throw [OF h [unfolded Throw]] .
  qed
qed

lemma rec_inv_step: "rec_inv b s \<Longrightarrow> rec_inv b (step ev s)"
proof (cases ev)
  case (Pair e x)
  assume inv: "rec_inv b s"
  show ?thesis
  proof (cases x)
    case (Connection c ip)
    then show ?thesis using Pair inv by (simp add: on_connection_def rec_inv_alt)
  next
    case (Message c raw)
    then show ?thesis using Pair inv
      by (simp add: rec_inv_on_message split: option.splits)
  next
    case (SocketState c ws)
    then show ?thesis using Pair inv by (simp add: rec_inv_alt)
  next
    case (Disconnect c)
    then show ?thesis using Pair inv by (simp add: rec_inv_handleDisconnect)
  next
    case (TimerFires n)
    then show ?thesis using Pair inv by (simp add: rec_inv_alt)
  next
    case (DtlsClosed t)
    then show ?thesis using Pair inv by (simp add: rec_inv_alt)
  next
    case (EngineEmits r)
    then show ?thesis using Pair inv by (simp add: rec_inv_alt)
  next
    case (EncoderExit p)
    then show ?thesis using Pair inv by (simp add: rec_inv_alt)
  qed
qed

lemma rec_inv_init: "rec_inv b (init b paths)"
  by (simp add: rec_inv_def init_def port_ok_def)

lemma rec_inv_fold: "rec_inv b s \<Longrightarrow> rec_inv b (fold step evs s)"
  by (induction evs arbitrary: s) (simp_all add: rec_inv_step)

lemma rec_inv_run: "rec_inv b (run evs (init b paths))"
  by (simp add: run_def rec_inv_fold rec_inv_init)

section \<open>Cleanup, broadcasts and the handlers, characterised\<close>


text \<open>
  The engine, the recorder and cleanup do not write \<open>clients\<close>, \<open>streamers\<close>,
  \<open>masters\<close> or \<open>sent\<close>.
\<close>

lemma ws_view_updates [simp]:
  "ws_view (s\<lparr>transports := d\<rparr>) = ws_view s"
  "ws_view (s\<lparr>producers := f\<rparr>) = ws_view s"
  "ws_view (s\<lparr>consumers := g\<rparr>) = ws_view s"
  "ws_view (s\<lparr>recordings := a\<rparr>) = ws_view s"
  "ws_view (s\<lparr>nextRtpPort := b\<rparr>) = ws_view s"
  "ws_view (s\<lparr>closed := h\<rparr>) = ws_view s"
  "ws_view (s\<lparr>fs := i\<rparr>) = ws_view s"
  "ws_view (s\<lparr>timers := j\<rparr>) = ws_view s"
  "ws_view (s\<lparr>killed := m\<rparr>) = ws_view s"
  "ws_view (s\<lparr>effects := k\<rparr>) = ws_view s"
  by (simp_all add: ws_view_def)

lemma ws_view_fire [simp]: "ws_view (fire r s) = ws_view s"
  by (cases r) (simp_all add: fire.simps)

lemma ws_view_mark_closed [simp]: "ws_view (mark_closed r s) = ws_view s"
  by (simp add: mark_closed_def)

lemma ws_view_cascade [simp]:
  "ws_view (fold (\<lambda>r' t. fire r' (mark_closed r' t)) rs s) = ws_view s"
  by (induction rs arbitrary: s) simp_all

lemma ws_view_close_resource [simp]: "ws_view (close_resource e r s) = ws_view s"
  by (simp add: close_resource_def Let_def)

lemma ws_view_kill_process [simp]: "ws_view (kill_process e h sg s) = ws_view s"
  by (simp add: kill_process_def)

lemma ws_view_unlink_if_exists [simp]: "ws_view (unlink_if_exists e p s) = ws_view s"
  by (simp add: unlink_if_exists_def split: option.splits)

lemma ws_view_run_timer [simp]: "ws_view (run_timer e t s) = ws_view s"
  by (cases t) (simp_all add: Let_def split: option.splits)

lemma ws_view_cleanup_producers [simp]: "ws_view (cleanup_producers e c l s) = ws_view s"
  by (induction l arbitrary: s) auto

lemma ws_view_cleanup_consumers [simp]: "ws_view (cleanup_consumers e c l s) = ws_view s"
  by (induction l arbitrary: s) auto

lemma ws_view_cleanup_transports [simp]: "ws_view (cleanup_transports e c l s) = ws_view s"
  by (induction l arbitrary: s) auto

lemma ws_view_cleanupClient [simp]: "ws_view (cleanupClient e c s) = ws_view s"
  by (simp add: cleanupClient_def Let_def)

lemma ws_view_stopRecording [simp]: "ws_view (snd (stopRecording e p s)) = ws_view s"
  by (simp add: stopRecording_def Let_def split: option.splits)

lemma ws_view_stop_fold [simp]:
  "ws_view (fold (\<lambda>producer t. snd (stopRecording e (fst producer) t)) ps s) = ws_view s"
  by (induction ps arbitrary: s) simp_all

lemma ws_view_stop_recordings_of [simp]: "ws_view (stop_recordings_of e c s) = ws_view s"
  by (simp add: stop_recordings_of_def)

text \<open>Closing and cleaning up only ever remove entries from the registries.\<close>

lemma shrinks_refl [simp]: "shrinks s s"
  by (simp add: shrinks_def)

lemma shrinks_trans: "shrinks s t \<Longrightarrow> shrinks t u \<Longrightarrow> shrinks s u"
  by (auto simp: shrinks_def)

lemma set_delete_subset: "set (AList.delete k l) \<subseteq> set l"
  by (auto simp: AList.delete_eq)

lemma shrinks_fire: "shrinks s (fire r s)"
  by (cases r) (simp_all add: fire.simps shrinks_def set_delete_subset)

lemma shrinks_mark_closed: "shrinks s (mark_closed r s)"
  by (simp add: mark_closed_def shrinks_def)

lemma shrinks_cascade: "shrinks s (fold (\<lambda>r' t. fire r' (mark_closed r' t)) rs s)"
proof (induction rs arbitrary: s)
  case Nil
  then show ?case by simp
next
  case (Cons r rs)
  have "shrinks s (fire r (mark_closed r s))"
    using shrinks_trans [OF shrinks_mark_closed shrinks_fire] .
  then show ?case using Cons [of "fire r (mark_closed r s)"] shrinks_trans by auto
qed

lemma shrinks_close_resource: "shrinks s (close_resource e r s)"
proof -
  have a: "shrinks s (s\<lparr>effects := effects s @ [Close r]\<rparr>)" by (simp add: shrinks_def)
  have b: "shrinks (s\<lparr>effects := effects s @ [Close r]\<rparr>)
             (mark_closed r (s\<lparr>effects := effects s @ [Close r]\<rparr>))"
    by (rule shrinks_mark_closed)
  show ?thesis
    using a shrinks_trans [OF a shrinks_trans [OF b shrinks_cascade]]
    by (simp add: close_resource_def Let_def)
qed

lemma shrinks_close_fire: "shrinks s (fire r (close_resource e r' s))"
  using shrinks_trans [OF shrinks_close_resource shrinks_fire] .

lemma shrinks_cleanup_producers: "shrinks s (cleanup_producers e c l s)"
proof (induction l arbitrary: s)
  case Nil
  then show ?case by simp
next
  case (Cons x l)
  obtain k d where x: "x = (k, d)" by (cases x)
  show ?case
    unfolding x using Cons shrinks_trans [OF shrinks_close_fire Cons] by simp
qed

lemma shrinks_cleanup_consumers: "shrinks s (cleanup_consumers e c l s)"
proof (induction l arbitrary: s)
  case Nil
  then show ?case by simp
next
  case (Cons x l)
  obtain k d where x: "x = (k, d)" by (cases x)
  show ?case
    unfolding x using Cons shrinks_trans [OF shrinks_close_fire Cons] by simp
qed

lemma shrinks_cleanup_transports: "shrinks s (cleanup_transports e c l s)"
proof (induction l arbitrary: s)
  case Nil
  then show ?case by simp
next
  case (Cons x l)
  obtain k d where x: "x = (k, d)" by (cases x)
  show ?case
    unfolding x using Cons shrinks_trans [OF shrinks_close_fire Cons] by simp
qed

text \<open>A cleanup loop leaves no entry of the list it walks that the client owns.\<close>

lemma not_in_delete: "(k, d) \<notin> set (AList.delete k l)"
  by (auto simp: AList.delete_eq)

lemma absent_not_in: "map_of l k = None \<Longrightarrow> (k, d) \<notin> set l"
  by (metis map_of_eq_None_iff fst_conv image_eqI)

lemma cleanup_producers_post:
  "x \<in> set (producers (cleanup_producers e c l s)) \<Longrightarrow> x \<in> set l \<Longrightarrow> p_clientId (snd x) \<noteq> c"
proof (induction l arbitrary: s)
  case Nil
  then show ?case by simp
next
  case (Cons y l)
  obtain k d where y: "y = (k, d)" by (cases y)
  let ?s' = "if map_of (producers s) k \<noteq> None \<and> p_clientId d = c
             then fire (Producer k) (close_resource e (Producer k) s) else s"
  have res: "cleanup_producers e c (y # l) s = cleanup_producers e c l ?s'"
    by (simp add: y)
  show ?case
  proof (cases "x \<in> set l")
    case True
    then show ?thesis using Cons.IH [of ?s'] Cons.prems(1) unfolding res by blast
  next
    case False
    then have xy: "x = (k, d)" using Cons.prems(2) y by simp
    have sub: "set (producers (cleanup_producers e c l ?s')) \<subseteq> set (producers ?s')"
      using shrinks_cleanup_producers [of ?s' e c l] by (simp add: shrinks_def)
    show ?thesis
    proof
      assume own: "p_clientId (snd x) = c"
      have "(k, d) \<notin> set (producers ?s')"
      proof (cases "map_of (producers s) k")
        case None
        then show ?thesis using absent_not_in by simp
      next
        case (Some a)
        then show ?thesis using own xy not_in_delete by (simp add: fire.simps)
      qed
      then show False using sub Cons.prems(1) xy unfolding res by blast
    qed
  qed
qed

lemma cleanup_consumers_post:
  "x \<in> set (consumers (cleanup_consumers e c l s)) \<Longrightarrow> x \<in> set l \<Longrightarrow> k_clientId (snd x) \<noteq> c"
proof (induction l arbitrary: s)
  case Nil
  then show ?case by simp
next
  case (Cons y l)
  obtain k d where y: "y = (k, d)" by (cases y)
  let ?s' = "if map_of (consumers s) k \<noteq> None \<and> k_clientId d = c
             then fire (Consumer k) (close_resource e (Consumer k) s) else s"
  have res: "cleanup_consumers e c (y # l) s = cleanup_consumers e c l ?s'"
    by (simp add: y)
  show ?case
  proof (cases "x \<in> set l")
    case True
    then show ?thesis using Cons.IH [of ?s'] Cons.prems(1) unfolding res by blast
  next
    case False
    then have xy: "x = (k, d)" using Cons.prems(2) y by simp
    have sub: "set (consumers (cleanup_consumers e c l ?s')) \<subseteq> set (consumers ?s')"
      using shrinks_cleanup_consumers [of ?s' e c l] by (simp add: shrinks_def)
    show ?thesis
    proof
      assume own: "k_clientId (snd x) = c"
      have "(k, d) \<notin> set (consumers ?s')"
      proof (cases "map_of (consumers s) k")
        case None
        then show ?thesis using absent_not_in by simp
      next
        case (Some a)
        then show ?thesis using own xy not_in_delete by (simp add: fire.simps)
      qed
      then show False using sub Cons.prems(1) xy unfolding res by blast
    qed
  qed
qed

lemma cleanup_transports_post:
  "x \<in> set (transports (cleanup_transports e c l s)) \<Longrightarrow> x \<in> set l \<Longrightarrow> t_clientId (snd x) \<noteq> c"
proof (induction l arbitrary: s)
  case Nil
  then show ?case by simp
next
  case (Cons y l)
  obtain k d where y: "y = (k, d)" by (cases y)
  let ?s' = "if map_of (transports s) k \<noteq> None \<and> t_clientId d = c
             then fire (Transport k) (close_resource e (Transport k) s) else s"
  have res: "cleanup_transports e c (y # l) s = cleanup_transports e c l ?s'"
    by (simp add: y)
  show ?case
  proof (cases "x \<in> set l")
    case True
    then show ?thesis using Cons.IH [of ?s'] Cons.prems(1) unfolding res by blast
  next
    case False
    then have xy: "x = (k, d)" using Cons.prems(2) y by simp
    have sub: "set (transports (cleanup_transports e c l ?s')) \<subseteq> set (transports ?s')"
      using shrinks_cleanup_transports [of ?s' e c l] by (simp add: shrinks_def)
    show ?thesis
    proof
      assume own: "t_clientId (snd x) = c"
      have "(k, d) \<notin> set (transports ?s')"
      proof (cases "map_of (transports s) k")
        case None
        then show ?thesis using absent_not_in by simp
      next
        case (Some a)
        then show ?thesis using own xy not_in_delete by (simp add: fire.simps)
      qed
      then show False using sub Cons.prems(1) xy unfolding res by blast
    qed
  qed
qed

text \<open>Where the client owns nothing, the loops do nothing.\<close>

lemma cleanup_producers_noop:
  "filter (\<lambda>(i, d). p_clientId d = c) l = [] \<Longrightarrow> cleanup_producers e c l s = s"
  by (induction l arbitrary: s) (auto split: if_splits)

lemma cleanup_consumers_noop:
  "filter (\<lambda>(i, d). k_clientId d = c) l = [] \<Longrightarrow> cleanup_consumers e c l s = s"
  by (induction l arbitrary: s) (auto split: if_splits)

lemma cleanup_transports_noop:
  "filter (\<lambda>(i, d). t_clientId d = c) l = [] \<Longrightarrow> cleanup_transports e c l s = s"
  by (induction l arbitrary: s) (auto split: if_splits)

lemma cleanupClient_noop:
  assumes "filter (\<lambda>(i, d). p_clientId d = c) (producers s) = []"
    and "filter (\<lambda>(i, d). k_clientId d = c) (consumers s) = []"
    and "filter (\<lambda>(i, d). t_clientId d = c) (transports s) = []"
  shows "cleanupClient e c s = s"
  using assms
  by (simp add: cleanupClient_def Let_def cleanup_producers_noop cleanup_consumers_noop
      cleanup_transports_noop)

lemma filter_empty_subset:
  "filter P l = [] \<Longrightarrow> set l' \<subseteq> set l \<Longrightarrow> filter P l' = []"
  by (auto simp: filter_empty_conv)

lemma filter_owner_empty:
  "(\<And>x. x \<in> set l \<Longrightarrow> f (snd x) \<noteq> c) \<Longrightarrow> filter (\<lambda>(i, d). f d = c) l = []"
proof -
  assume a: "\<And>x. x \<in> set l \<Longrightarrow> f (snd x) \<noteq> c"
  have "\<forall>x \<in> set l. \<not> (case x of (i, d) \<Rightarrow> f d = c)"
  proof
    fix x assume "x \<in> set l"
    then have "f (snd x) \<noteq> c" by (rule a)
    then show "\<not> (case x of (i, d) \<Rightarrow> f d = c)" by (simp add: case_prod_beta)
  qed
  then show ?thesis by (simp add: filter_empty_conv)
qed

lemma cleanupClient_post:
  "filter (\<lambda>(i, d). p_clientId d = c) (producers (cleanupClient e c s)) = []
   \<and> filter (\<lambda>(i, d). k_clientId d = c) (consumers (cleanupClient e c s)) = []
   \<and> filter (\<lambda>(i, d). t_clientId d = c) (transports (cleanupClient e c s)) = []"
proof -
  define s1 where "s1 = cleanup_producers e c (producers s) s"
  define s2 where "s2 = cleanup_consumers e c (consumers s1) s1"
  define s3 where "s3 = cleanup_transports e c (transports s2) s2"
  have eq: "cleanupClient e c s = s3"
    by (simp add: cleanupClient_def Let_def s1_def s2_def s3_def)
  have sh1: "shrinks s s1" unfolding s1_def by (rule shrinks_cleanup_producers)
  have sh2: "shrinks s1 s2" unfolding s2_def by (rule shrinks_cleanup_consumers)
  have sh3: "shrinks s2 s3" unfolding s3_def by (rule shrinks_cleanup_transports)
  have p1: "filter (\<lambda>(i, d). p_clientId d = c) (producers s1) = []"
  proof -
    have "\<And>x. x \<in> set (producers s1) \<Longrightarrow> p_clientId (snd x) \<noteq> c"
    proof -
      fix x assume x: "x \<in> set (producers s1)"
      then have "x \<in> set (producers s)" using sh1 by (auto simp: shrinks_def)
      then show "p_clientId (snd x) \<noteq> c"
        using cleanup_producers_post [of x e c "producers s" s] x unfolding s1_def by blast
    qed
    then show ?thesis by (rule filter_owner_empty)
  qed
  have c2: "filter (\<lambda>(i, d). k_clientId d = c) (consumers s2) = []"
  proof -
    have "\<And>x. x \<in> set (consumers s2) \<Longrightarrow> k_clientId (snd x) \<noteq> c"
    proof -
      fix x assume x: "x \<in> set (consumers s2)"
      then have "x \<in> set (consumers s1)" using sh2 by (auto simp: shrinks_def)
      then show "k_clientId (snd x) \<noteq> c"
        using cleanup_consumers_post [of x e c "consumers s1" s1] x unfolding s2_def by blast
    qed
    then show ?thesis by (rule filter_owner_empty)
  qed
  have t3: "filter (\<lambda>(i, d). t_clientId d = c) (transports s3) = []"
  proof -
    have "\<And>x. x \<in> set (transports s3) \<Longrightarrow> t_clientId (snd x) \<noteq> c"
    proof -
      fix x assume x: "x \<in> set (transports s3)"
      then have "x \<in> set (transports s2)" using sh3 by (auto simp: shrinks_def)
      then show "t_clientId (snd x) \<noteq> c"
        using cleanup_transports_post [of x e c "transports s2" s2] x unfolding s3_def by blast
    qed
    then show ?thesis by (rule filter_owner_empty)
  qed
  have p3: "filter (\<lambda>(i, d). p_clientId d = c) (producers s3) = []"
    using filter_empty_subset [OF p1] sh2 sh3 by (auto simp: shrinks_def)
  have c3: "filter (\<lambda>(i, d). k_clientId d = c) (consumers s3) = []"
    using filter_empty_subset [OF c2] sh3 by (auto simp: shrinks_def)
  show ?thesis unfolding eq using p3 c3 t3 by simp
qed

text \<open>
  A broadcast appends one frame per viewer with an open socket, in the order of the set;
  \<open>register\<close>, \<open>stop-streaming\<close> and a disconnect as single state updates.
\<close>

lemma broadcast_fold:
  "fold (\<lambda>masterId t.
             case map_of (clients t) masterId of
               Some master \<Rightarrow> if c_ws master = OPEN then send (c_ws master) masterId msg t else t
             | None \<Rightarrow> t) ms s
   = s\<lparr>sent := sent s @ map (\<lambda>m. (m, msg))
        (filter (\<lambda>masterId. case map_of (clients s) masterId of
                          Some master \<Rightarrow> c_ws master = OPEN
                        | None \<Rightarrow> False) ms)\<rparr>"
proof (induction ms arbitrary: s)
  case Nil
  then show ?case by simp
next
  case (Cons m ms)
  show ?case
  proof (cases "map_of (clients s) m")
    case None
    then show ?thesis using Cons [of s] by simp
  next
    case (Some master)
    show ?thesis
    proof (cases "c_ws master = OPEN")
      case True
      then show ?thesis using Some Cons [of "s\<lparr>sent := sent s @ [(m, msg)]\<rparr>"]
        by (simp add: send_def)
    next
      case False
      then show ?thesis using Some Cons [of s] by simp
    qed
  qed
qed

lemma broadcastToMasters_eq:
  "broadcastToMasters msg s = s\<lparr>sent := sent s @ map (\<lambda>m. (m, msg)) (open_masters s)\<rparr>"
  by (simp add: broadcastToMasters_def open_masters_def broadcast_fold)

lemma map_of_map_entry_same:
  "map_of (AList.map_entry k f l) k = map_option f (map_of l k)"
  by (simp add: map_of_map_entry split: option.splits)

lemma keys_map_entry [simp]: "map fst (AList.map_entry k f l) = map fst l"
  by (induction l) auto

lemma open_masters_map_entry:
  "(\<And>x. c_ws (f x) = c_ws x) \<Longrightarrow>
   open_masters (s\<lparr>clients := AList.map_entry k f (clients s)\<rparr>) = open_masters s"
proof -
  assume a: "\<And>x. c_ws (f x) = c_ws x"
  have "\<And>m. (case map_of (AList.map_entry k f (clients s)) m of
                Some master \<Rightarrow> c_ws master = OPEN | None \<Rightarrow> False)
           = (case map_of (clients s) m of Some master \<Rightarrow> c_ws master = OPEN | None \<Rightarrow> False)"
    using a by (simp add: map_of_map_entry split: option.splits)
  then show ?thesis by (simp add: open_masters_def)
qed

lemma open_masters_updates [simp]:
  "open_masters (s\<lparr>streamers := x\<rparr>) = open_masters s"
  "open_masters (s\<lparr>sent := y\<rparr>) = open_masters s"
  by (simp_all add: open_masters_def)

lemma handle_register_eq:
  assumes "map_of (clients s) c = Some cl"
  shows "handle_register c ws role deviceName s =
     (let name = (if truthy deviceName then the deviceName else ''Device-'' @ take 8 c);
          cs = AList.map_entry c (\<lambda>x. x\<lparr>c_role := role, c_deviceName := Some name\<rparr>) (clients s)
      in (Return (),
          if role = Some ''streamer''
          then s\<lparr>clients := cs,
                 streamers := AList.update c
                    \<lparr>s_deviceName = name, s_producers = [], s_transports = []\<rparr> (streamers s),
                 sent := sent s @ map (\<lambda>m. (m, StreamerJoined c name)) (open_masters s)
                          @ (if ws = OPEN then [(c, Registered role name)] else [])\<rparr>
          else if role = Some ''master''
          then s\<lparr>clients := cs,
                 masters := (if c \<in> set (masters s) then masters s else masters s @ [c]),
                 sent := sent s @ (if ws = OPEN
                     then [(c, StreamerList (streamerList s)), (c, Registered role name)]
                     else [])\<rparr>
          else s\<lparr>clients := cs,
                 sent := sent s @ (if ws = OPEN then [(c, Registered role name)] else [])\<rparr>))"
  using assms
  by (simp add: handle_register_def Let_def broadcastToMasters_eq send_def
      open_masters_map_entry streamerList_def getProducersByClient_def)

text \<open>The keys through the handlers, and the trace-level account of them.\<close>

lemma key_view_alt:
  "key_view s = (case ws_view s of (cl, st, ma, se) \<Rightarrow> (map fst cl, map fst st, ma))"
  by (simp add: key_view_def ws_view_def)

lemma key_view_ws: "ws_view s' = ws_view s \<Longrightarrow> key_view s' = key_view s"
  by (simp add: key_view_alt)

lemma key_view_updates [simp]:
  "key_view (s\<lparr>sent := x\<rparr>) = key_view s"
  "key_view (s\<lparr>clients := AList.map_entry k f (clients s)\<rparr>) = key_view s"
  "key_view (s\<lparr>streamers := AList.map_entry k g (streamers s)\<rparr>) = key_view s"
  by (simp_all add: key_view_def)

lemma key_view_send [simp]: "key_view (send ws c m s) = key_view s"
  by (simp add: send_def)

lemma key_view_broadcast [simp]: "key_view (broadcastToMasters m s) = key_view s"
  by (simp add: broadcastToMasters_eq)

lemma ws_view_rec_spawn [simp]:
  "ws_view (snd (rec_spawn e p d fp fn sp port pt c s)) = ws_view s"
  by (simp add: rec_spawn_def Let_def split: option.splits)

lemma ws_view_rec_connect [simp]:
  "ws_view (snd (rec_connect e p d dir fp fn port pt c sd s)) = ws_view s"
  by (simp add: rec_connect_def Let_def split: option.splits)

lemma ws_view_getNextPort [simp]: "ws_view (snd (getNextPort s)) = ws_view s"
  by (simp add: getNextPort_def Let_def)

lemma ws_view_startRecording_body [simp]:
  "ws_view (snd (startRecording_body e p d dir s)) = ws_view s"
  by (simp add: startRecording_body_def Let_def split: option.splits sum.splits prod.splits)

lemma ws_view_startRecording [simp]: "ws_view (snd (startRecording e p d s)) = ws_view s"
proof -
  have a: "\<And>t. ws_view (snd (case startRecording_body e p d (e_recordingsDir e) t of
                 (r, s') \<Rightarrow> (Return r, s'))) = ws_view t"
  proof -
    fix t
    show "ws_view (snd (case startRecording_body e p d (e_recordingsDir e) t of
                 (r, s') \<Rightarrow> (Return r, s'))) = ws_view t"
      using ws_view_startRecording_body [of e p d "e_recordingsDir e" t]
      by (cases "startRecording_body e p d (e_recordingsDir e) t") simp
  qed
  show ?thesis
    by (simp add: startRecording_def Let_def a split: option.splits)
qed

lemma ws_view_createWebRtcTransport [simp]:
  "ws_view (snd (createWebRtcTransport e c s)) = ws_view s"
  by (simp add: createWebRtcTransport_def split: sum.splits)

lemma ws_view_connectTransport [simp]:
  "ws_view (snd (connectTransport e t d s)) = ws_view s"
  by (simp add: connectTransport_def split: option.splits)

lemma ws_view_createProducer [simp]:
  "ws_view (snd (createProducer e t k r c d s)) = ws_view s"
  by (simp add: createProducer_def split: option.splits sum.splits)

lemma ws_view_createConsumer [simp]:
  "ws_view (snd (createConsumer e t p r c s)) = ws_view s"
  by (simp add: createConsumer_def split: option.splits sum.splits)

lemma ws_view_resumeConsumer [simp]:
  "ws_view (snd (resumeConsumer e c s)) = ws_view s"
  by (simp add: resumeConsumer_def split: option.splits)

lemma key_view_handle_create_transport [simp]:
  "key_view (snd (handle_create_transport e c ws d s)) = key_view s"
proof (cases "createWebRtcTransport e c s")
  case (Pair r s1)
  have "key_view s1 = key_view s"
    using key_view_ws [OF ws_view_createWebRtcTransport [of e c s]] Pair by simp
  then show ?thesis
    by (cases r) (simp_all add: handle_create_transport_def Pair Let_def)
qed

lemma key_view_handle_connect_transport [simp]:
  "key_view (snd (handle_connect_transport e c ws t d s)) = key_view s"
proof (cases "connectTransport e t d s")
  case (Pair r s1)
  have "key_view s1 = key_view s"
    using key_view_ws [OF ws_view_connectTransport [of e t d s]] Pair by simp
  then show ?thesis
    by (cases r) (simp_all add: handle_connect_transport_def Pair)
qed

lemma key_view_handle_consume [simp]:
  "key_view (snd (handle_consume e c ws t p r s)) = key_view s"
proof (cases "createConsumer e t p r c s")
  case (Pair res s1)
  have "key_view s1 = key_view s"
    using key_view_ws [OF ws_view_createConsumer [of e t p r c s]] Pair by simp
  then show ?thesis
    by (cases res) (simp_all add: handle_consume_def Pair split: prod.splits)
qed

lemma key_view_handle_resume_consumer [simp]:
  "key_view (snd (handle_resume_consumer e c ws k s)) = key_view s"
proof (cases "resumeConsumer e k s")
  case (Pair res s1)
  have "key_view s1 = key_view s"
    using key_view_ws [OF ws_view_resumeConsumer [of e k s]] Pair by simp
  then show ?thesis
    by (cases res) (simp_all add: handle_resume_consumer_def Pair)
qed

lemma key_view_handle_pan_zoom [simp]:
  "key_view (snd (handle_pan_zoom t z x y s)) = key_view s"
  by (simp add: handle_pan_zoom_def split: option.splits)

lemma key_view_handle_produce [simp]:
  "key_view (snd (handle_produce e c ws t k r s)) = key_view s"
proof (cases "map_of (clients s) c")
  case None
  then show ?thesis by (simp add: handle_produce_def)
next
  case (Some cl)
  show ?thesis
  proof (cases "createProducer e t k r c (c_deviceName cl) s")
    case (Pair res s1)
    have v1: "key_view s1 = key_view s"
      using key_view_ws [OF ws_view_createProducer [of e t k r c "c_deviceName cl" s]] Pair
      by simp
    show ?thesis
    proof (cases res)
      case (Throw m)
      then show ?thesis using Some Pair v1 by (simp add: handle_produce_def)
    next
      case (Return pid)
      let ?s3 = "broadcastToMasters (NewProducer pid c (c_deviceName cl) k)
                   (s1\<lparr>streamers := AList.map_entry c
                          (\<lambda>st. st\<lparr>s_producers := s_producers st @ [pid]\<rparr>) (streamers s1)\<rparr>)"
      have v3: "key_view ?s3 = key_view s" using v1 by simp
      have "key_view (snd (startRecording e pid (c_deviceName cl) ?s3)) = key_view ?s3"
        by (rule key_view_ws) simp
      then have "key_view (if k = ''video'' then snd (startRecording e pid (c_deviceName cl) ?s3)
                           else ?s3) = key_view s"
        using v3 by auto
      then show ?thesis using Some Pair Return
        by (simp add: handle_produce_def Let_def)
    qed
  qed
qed

lemma ws_fields:
  "ws_view s' = ws_view s \<Longrightarrow>
   clients s' = clients s \<and> streamers s' = streamers s \<and> masters s' = masters s
   \<and> sent s' = sent s"
  by (simp add: ws_view_def)

lemma open_masters_ws: "ws_view s' = ws_view s \<Longrightarrow> open_masters s' = open_masters s"
  by (simp add: open_masters_def ws_view_def)

lemma delete_absent: "map_of l k = None \<Longrightarrow> AList.delete k l = l"
  by (simp add: map_of_eq_None_iff)

lemma handle_stop_streaming_eq:
  assumes "map_of (clients s) c = Some cl"
  shows "handle_stop_streaming e c ws s =
     (Return (),
      (cleanupClient e c (stop_recordings_of e c s))
        \<lparr>streamers := AList.delete c (streamers s),
         clients := AList.map_entry c (\<lambda>x. x\<lparr>c_role := None\<rparr>) (clients s),
         sent := sent s
           @ (if map_of (streamers s) c \<noteq> None
              then map (\<lambda>m. (m, StreamerLeft c (c_deviceName cl))) (open_masters s) else [])
           @ (if ws = OPEN then [(c, StreamingStopped)] else [])\<rparr>)"
proof -
  define s2 where "s2 = cleanupClient e c (stop_recordings_of e c s)"
  have v: "ws_view s2 = ws_view s" by (simp add: s2_def)
  note f = ws_fields [OF v] open_masters_ws [OF v]
  show ?thesis
  proof (cases "map_of (streamers s) c")
    case None
    then show ?thesis using assms f
      by (simp add: handle_stop_streaming_def Let_def s2_def [symmetric] send_def delete_absent)
  next
    case (Some st)
    then show ?thesis using assms f
      by (simp add: handle_stop_streaming_def Let_def s2_def [symmetric] send_def
          broadcastToMasters_eq)
  qed
qed

lemma handleDisconnect_eq:
  assumes "map_of (clients s) c = Some cl"
  shows "handleDisconnect e c s =
      (cleanupClient e c (stop_recordings_of e c s))
        \<lparr>streamers := AList.delete c (streamers s),
         masters := removeAll c (masters s),
         clients := AList.delete c (clients s),
         sent := sent s
           @ (if map_of (streamers s) c \<noteq> None
              then map (\<lambda>m. (m, StreamerLeft c (c_deviceName cl))) (open_masters s) else [])\<rparr>"
proof -
  define s2 where "s2 = cleanupClient e c (stop_recordings_of e c s)"
  have v: "ws_view s2 = ws_view s" by (simp add: s2_def)
  note f = ws_fields [OF v] open_masters_ws [OF v]
  show ?thesis
  proof (cases "map_of (streamers s) c")
    case None
    then show ?thesis using assms f
      by (simp add: handleDisconnect_def Let_def s2_def [symmetric] delete_absent)
  next
    case (Some st)
    then show ?thesis using assms f
      by (simp add: handleDisconnect_def Let_def s2_def [symmetric] broadcastToMasters_eq)
  qed
qed

lemma present_iff: "map_of l k \<noteq> None \<longleftrightarrow> k \<in> set (map fst l)"
  by (simp add: map_of_eq_None_iff)

lemma leave_fields:
  "clients (cleanupClient e c (stop_recordings_of e c s)) = clients s
   \<and> streamers (cleanupClient e c (stop_recordings_of e c s)) = streamers s
   \<and> masters (cleanupClient e c (stop_recordings_of e c s)) = masters s
   \<and> sent (cleanupClient e c (stop_recordings_of e c s)) = sent s"
  by (rule ws_fields) simp

lemma key_view_handle_register:
  "key_view (snd (handle_register c ws role name s)) =
     (map fst (clients s),
      if c \<in> set (map fst (clients s)) \<and> role = Some ''streamer''
         \<and> c \<notin> set (map fst (streamers s))
      then map fst (streamers s) @ [c] else map fst (streamers s),
      if c \<in> set (map fst (clients s)) \<and> role = Some ''master'' \<and> c \<notin> set (masters s)
      then masters s @ [c] else masters s)"
proof (cases "map_of (clients s) c")
  case None
  then have "c \<notin> set (map fst (clients s))" using present_iff [of "clients s" c] by simp
  then show ?thesis using None by (simp add: handle_register_def key_view_def)
next
  case (Some cl)
  then have "c \<in> set (map fst (clients s))" using present_iff [of "clients s" c] by simp
  then show ?thesis
    unfolding handle_register_eq [OF Some]
    by (simp add: Let_def key_view_def update_keys)
qed

lemma key_view_handle_stop_streaming:
  "key_view (snd (handle_stop_streaming e c ws s)) =
     (map fst (clients s),
      if c \<in> set (map fst (clients s)) then removeAll c (map fst (streamers s))
      else map fst (streamers s),
      masters s)"
proof (cases "map_of (clients s) c")
  case None
  then have "c \<notin> set (map fst (clients s))" using present_iff [of "clients s" c] by simp
  then show ?thesis using None by (simp add: handle_stop_streaming_def key_view_def)
next
  case (Some cl)
  then have "c \<in> set (map fst (clients s))" using present_iff [of "clients s" c] by simp
  then show ?thesis
    unfolding handle_stop_streaming_eq [OF Some]
    by (simp add: key_view_def delete_keys leave_fields)
qed

lemma key_view_handleDisconnect:
  "key_view (handleDisconnect e c s) =
     (removeAll c (map fst (clients s)),
      if c \<in> set (map fst (clients s)) then removeAll c (map fst (streamers s))
      else map fst (streamers s),
      if c \<in> set (map fst (clients s)) then removeAll c (masters s) else masters s)"
proof (cases "map_of (clients s) c")
  case None
  then have "c \<notin> set (map fst (clients s))" using present_iff [of "clients s" c] by simp
  then show ?thesis using None by (simp add: handleDisconnect_def key_view_def)
next
  case (Some cl)
  then have "c \<in> set (map fst (clients s))" using present_iff [of "clients s" c] by simp
  then show ?thesis
    unfolding handleDisconnect_eq [OF Some]
    by (simp add: key_view_def delete_keys leave_fields)
qed

lemma key_view_on_connection:
  "key_view (on_connection c ip s) =
     (if c \<in> set (map fst (clients s)) then map fst (clients s) else map fst (clients s) @ [c],
      map fst (streamers s), masters s)"
  by (simp add: on_connection_def key_view_def send_def update_keys)

lemma key_view_handleMessage:
  "key_view (snd (handleMessage e c ws d s)) = msg_keys c d (key_view s)"
proof (cases d)
  case (Register role name)
  then show ?thesis
    by (simp add: handleMessage_def msg_keys_def key_view_handle_register)
       (simp add: key_view_def)
next
  case StopStreaming
  then show ?thesis
    by (simp add: handleMessage_def msg_keys_def key_view_handle_stop_streaming)
       (simp add: key_view_def)
qed (simp_all add: handleMessage_def msg_keys_def split: prod.splits)

lemma key_view_on_message:
  "key_view (on_message e c ws raw s) =
     (case raw of Malformed m \<Rightarrow> key_view s | Data d \<Rightarrow> msg_keys c d (key_view s))"
proof (cases raw)
  case (Malformed m)
  then show ?thesis by (simp add: on_message_Malformed)
next
  case (Data d)
  obtain res s1 where h: "handleMessage e c ws d s = (res, s1)"
    by (cases "handleMessage e c ws d s")
  have k: "key_view s1 = msg_keys c d (key_view s)"
    using key_view_handleMessage [of e c ws d s] unfolding h by simp
  show ?thesis
  proof (cases res)
    case (Return u)
    show ?thesis
      unfolding Data on_message_Return [OF h [unfolded Return]] using k by simp
  next
    case (Throw err)
    show ?thesis
      unfolding Data on_message_Throw [OF h [unfolded Throw]] using k by simp
  qed
qed

lemma key_view_step: "key_view (step (e, ev) s) = key_step ev (key_view s)"
proof (cases ev)
  case (Connection c ip)
  then show ?thesis by (simp add: key_view_on_connection key_step_def) (simp add: key_view_def)
next
  case (Message c raw)
  show ?thesis
  proof (cases "map_of (clients s) c")
    case None
    then have "c \<notin> set (map fst (clients s))" using present_iff [of "clients s" c] by simp
    then show ?thesis using None Message by (simp add: key_step_def key_view_def)
  next
    case (Some cl)
    then have "c \<in> set (map fst (clients s))" using present_iff [of "clients s" c] by simp
    then show ?thesis using Some Message
      by (simp add: key_step_def key_view_on_message) (simp add: key_view_def)
  qed
next
  case (SocketState c w)
  then show ?thesis by (simp add: key_step_def key_view_def)
next
  case (Disconnect c)
  then show ?thesis by (simp add: key_view_handleDisconnect key_step_def) (simp add: key_view_def)
next
  case (TimerFires n)
  have "key_view (run_timer e (snd (timers s ! n))
          (s\<lparr>timers := take n (timers s) @ drop (Suc n) (timers s)\<rparr>)) = key_view s"
    by (simp add: key_view_alt)
  then show ?thesis using TimerFires by (simp add: key_step_def key_view_def)
next
  case (DtlsClosed t)
  have "key_view (close_resource e (Transport t) s) = key_view s"
    by (simp add: key_view_alt)
  then show ?thesis using DtlsClosed by (simp add: key_step_def key_view_def)
next
  case (EngineEmits r)
  have "key_view (fire r (mark_closed r s)) = key_view s"
    by (simp add: key_view_alt)
  then show ?thesis using EngineEmits by (simp add: key_step_def key_view_def)
next
  case (EncoderExit p)
  have "key_view (unlink_if_exists e p s) = key_view s"
    by (simp add: key_view_alt)
  then show ?thesis using EncoderExit by (simp add: key_step_def key_view_def)
qed

lemma key_view_fold: "key_view (fold step evs s) = fold key_step (map snd evs) (key_view s)"
proof (induction evs arbitrary: s)
  case Nil
  then show ?case by simp
next
  case (Cons x evs)
  obtain e ev where x: "x = (e, ev)" by (cases x)
  show ?case using Cons [of "step (e, ev) s"] by (simp add: x key_view_step)
qed

lemma key_step_reg:
  "(fst (key_step ev (conn, regs, ms)), fst (snd (key_step ev (conn, regs, ms))))
     = record_step ev (conn, regs)"
proof (cases ev)
  case (Message c raw)
  show ?thesis
  proof (cases raw)
    case (Malformed m)
    then show ?thesis using Message by (simp add: key_step_def)
  next
    case (Data d)
    then show ?thesis using Message
      by (cases d) (auto simp: key_step_def msg_keys_def)
  qed
qed (simp_all add: key_step_def)

lemma key_fold_reg:
  "(fst (fold key_step evs (conn, regs, ms)), fst (snd (fold key_step evs (conn, regs, ms))))
     = fold record_step evs (conn, regs)"
proof (induction evs arbitrary: conn regs ms)
  case Nil
  then show ?case by simp
next
  case (Cons ev evs)
  obtain a b m where k: "key_step ev (conn, regs, ms) = (a, b, m)"
    by (cases "key_step ev (conn, regs, ms)")
  have r: "record_step ev (conn, regs) = (a, b)"
    using key_step_reg [of ev conn regs ms] unfolding k by simp
  show ?case using Cons [of a b m] by (simp add: k r)
qed

lemma key_step_distinct:
  assumes "distinct regs \<and> distinct ms" and "key_step ev (conn, regs, ms) = (conn', regs', ms')"
  shows "distinct regs' \<and> distinct ms'"
proof (cases ev)
  case (Message c raw)
  show ?thesis
  proof (cases raw)
    case (Malformed m)
    then show ?thesis using Message assms by (auto simp: key_step_def split: if_splits)
  next
    case (Data d)
    then show ?thesis using Message assms
      by (cases d) (auto simp: key_step_def msg_keys_def distinct_removeAll split: if_splits)
  qed
qed (use assms in \<open>auto simp: key_step_def distinct_removeAll split: if_splits\<close>)

lemma key_fold_distinct:
  "distinct regs \<and> distinct ms \<Longrightarrow> fold key_step evs (conn, regs, ms) = (conn', regs', ms') \<Longrightarrow>
   distinct regs' \<and> distinct ms'"
proof (induction evs arbitrary: conn regs ms)
  case Nil
  then show ?case by simp
next
  case (Cons ev evs)
  obtain a b m where k: "key_step ev (conn, regs, ms) = (a, b, m)"
    by (cases "key_step ev (conn, regs, ms)")
  have d: "distinct b \<and> distinct m" using key_step_distinct [OF Cons.prems(1) k] .
  show ?case using Cons.IH [OF d] Cons.prems(2) by (simp add: k)
qed

lemma key_view_init: "key_view (init b paths) = ([], [], [])"
  by (simp add: key_view_def init_def)

lemma run_keys:
  "map fst (streamers (run evs (init b paths))) = record_order evs
   \<and> distinct (map fst (streamers (run evs (init b paths))))
   \<and> distinct (masters (run evs (init b paths)))"
proof -
  obtain a r m where f: "fold key_step (map snd evs) ([], [], []) = (a, r, m)"
    by (cases "fold key_step (map snd evs) ([], [], [])")
  have kv: "key_view (run evs (init b paths)) = (a, r, m)"
    by (simp add: run_def key_view_fold key_view_init f)
  have "fold record_step (map snd evs) ([], []) = (a, r)"
    using key_fold_reg [of "map snd evs" "[]" "[]" "[]"] unfolding f by simp
  then have ro: "record_order evs = r" by (simp add: record_order_def)
  have d: "distinct r \<and> distinct m"
    using key_fold_distinct [OF _ f] by simp
  show ?thesis using kv ro d by (simp add: key_view_def)
qed

text \<open>
  An identity whose role is \<open>streamer\<close> holds a StreamerRecord, in every state the
  server reaches.
\<close>

lemma role_view_alt:
  "role_view s = (case ws_view s of (cl, st, ma, se) \<Rightarrow> (cl, map fst st))"
  by (simp add: role_view_def ws_view_def)

lemma role_view_ws: "ws_view s' = ws_view s \<Longrightarrow> role_view s' = role_view s"
  by (simp add: role_view_alt)

lemma role_view_updates [simp]:
  "role_view (s\<lparr>sent := x\<rparr>) = role_view s"
  "role_view (s\<lparr>masters := y\<rparr>) = role_view s"
  "role_view (s\<lparr>streamers := AList.map_entry k g (streamers s)\<rparr>) = role_view s"
  by (simp_all add: role_view_def)

lemma role_view_send [simp]: "role_view (send ws c m s) = role_view s"
  by (simp add: send_def)

lemma role_view_broadcast [simp]: "role_view (broadcastToMasters m s) = role_view s"
  by (simp add: broadcastToMasters_eq)

lemma role_view_handle_create_transport [simp]:
  "role_view (snd (handle_create_transport e c ws d s)) = role_view s"
proof (cases "createWebRtcTransport e c s")
  case (Pair r s1)
  have "role_view s1 = role_view s"
    using role_view_ws [OF ws_view_createWebRtcTransport [of e c s]] Pair by simp
  then show ?thesis
    by (cases r) (simp_all add: handle_create_transport_def Pair Let_def)
qed

lemma role_view_handle_connect_transport [simp]:
  "role_view (snd (handle_connect_transport e c ws t d s)) = role_view s"
proof (cases "connectTransport e t d s")
  case (Pair r s1)
  have "role_view s1 = role_view s"
    using role_view_ws [OF ws_view_connectTransport [of e t d s]] Pair by simp
  then show ?thesis
    by (cases r) (simp_all add: handle_connect_transport_def Pair)
qed

lemma role_view_handle_consume [simp]:
  "role_view (snd (handle_consume e c ws t p r s)) = role_view s"
proof (cases "createConsumer e t p r c s")
  case (Pair res s1)
  have "role_view s1 = role_view s"
    using role_view_ws [OF ws_view_createConsumer [of e t p r c s]] Pair by simp
  then show ?thesis
    by (cases res) (simp_all add: handle_consume_def Pair split: prod.splits)
qed

lemma role_view_handle_resume_consumer [simp]:
  "role_view (snd (handle_resume_consumer e c ws k s)) = role_view s"
proof (cases "resumeConsumer e k s")
  case (Pair res s1)
  have "role_view s1 = role_view s"
    using role_view_ws [OF ws_view_resumeConsumer [of e k s]] Pair by simp
  then show ?thesis
    by (cases res) (simp_all add: handle_resume_consumer_def Pair)
qed

lemma role_view_handle_pan_zoom [simp]:
  "role_view (snd (handle_pan_zoom t z x y s)) = role_view s"
  by (simp add: handle_pan_zoom_def split: option.splits)

lemma role_view_handle_produce [simp]:
  "role_view (snd (handle_produce e c ws t k r s)) = role_view s"
proof (cases "map_of (clients s) c")
  case None
  then show ?thesis by (simp add: handle_produce_def)
next
  case (Some cl)
  show ?thesis
  proof (cases "createProducer e t k r c (c_deviceName cl) s")
    case (Pair res s1)
    have v1: "role_view s1 = role_view s"
      using role_view_ws [OF ws_view_createProducer [of e t k r c "c_deviceName cl" s]] Pair
      by simp
    show ?thesis
    proof (cases res)
      case (Throw m)
      then show ?thesis using Some Pair v1 by (simp add: handle_produce_def)
    next
      case (Return pid)
      let ?s3 = "broadcastToMasters (NewProducer pid c (c_deviceName cl) k)
                   (s1\<lparr>streamers := AList.map_entry c
                          (\<lambda>st. st\<lparr>s_producers := s_producers st @ [pid]\<rparr>) (streamers s1)\<rparr>)"
      have v3: "role_view ?s3 = role_view s" using v1 by simp
      have "role_view (snd (startRecording e pid (c_deviceName cl) ?s3)) = role_view ?s3"
        by (rule role_view_ws) simp
      then have "role_view (if k = ''video'' then snd (startRecording e pid (c_deviceName cl) ?s3)
                           else ?s3) = role_view s"
        using v3 by auto
      then show ?thesis using Some Pair Return
        by (simp add: handle_produce_def Let_def)
    qed
  qed
qed

lemma set_update_cases:
  "x \<in> set (AList.update k v l) \<Longrightarrow> x = (k, v) \<or> x \<in> set l"
  by (induction l) (auto split: if_splits)

lemma set_map_entry_cases:
  "x \<in> set (AList.map_entry k f l) \<Longrightarrow> distinct (map fst l) \<Longrightarrow>
   (\<exists>v. (k, v) \<in> set l \<and> x = (k, f v)) \<or> (x \<in> set l \<and> fst x \<noteq> k)"
proof (induction l)
  case Nil
  then show ?case by simp
next
  case (Cons p l)
  show ?case
  proof (cases "fst p = k")
    case True
    then have "x = (k, f (snd p)) \<or> x \<in> set l" using Cons.prems(1) by auto
    then show ?thesis
    proof
      assume "x = (k, f (snd p))"
      then show ?thesis using True by (cases p) auto
    next
      assume xl: "x \<in> set l"
      then have "fst x \<noteq> k" using Cons.prems(2) True by (auto simp: image_iff)
      then show ?thesis using xl by simp
    qed
  next
    case False
    then have "x = p \<or> x \<in> set (AList.map_entry k f l)" using Cons.prems(1) by auto
    then show ?thesis
    proof
      assume "x = p"
      then show ?thesis using False by simp
    next
      assume "x \<in> set (AList.map_entry k f l)"
      then show ?thesis using Cons.IH Cons.prems(2) by auto
    qed
  qed
qed

lemma set_delete_cases: "x \<in> set (AList.delete k l) \<Longrightarrow> x \<in> set l \<and> fst x \<noteq> k"
  by (auto simp: AList.delete_eq)

lemma role_ok_on_connection:
  assumes "role_ok (role_view s)"
  shows "role_ok (role_view (on_connection c ip s))"
proof -
  let ?new = "\<lparr>c_ws = OPEN, c_role = None, c_deviceName = None, c_clientIp = ip\<rparr>"
  have v: "role_view (on_connection c ip s)
             = (AList.update c ?new (clients s), map fst (streamers s))"
    by (simp add: on_connection_def send_def role_view_def)
  have d: "distinct (map fst (AList.update c ?new (clients s)))"
    using assms by (simp add: role_ok_def role_view_def distinct_update)
  have "\<And>x. x \<in> set (AList.update c ?new (clients s)) \<Longrightarrow> c_role (snd x) = Some ''streamer''
           \<Longrightarrow> fst x \<in> set (map fst (streamers s))"
  proof -
    fix x assume x: "x \<in> set (AList.update c ?new (clients s))"
      and r: "c_role (snd x) = Some ''streamer''"
    have "x = (c, ?new) \<or> x \<in> set (clients s)" using set_update_cases [OF x] .
    then have "x \<in> set (clients s)" using r by auto
    then show "fst x \<in> set (map fst (streamers s))"
      using assms r by (auto simp: role_ok_def role_view_def)
  qed
  then show ?thesis unfolding v using d by (simp add: role_ok_def)
qed

lemma role_ok_map_entry_same_role:
  assumes "role_ok (role_view s)" and "\<And>x. c_role (f x) = c_role x"
  shows "role_ok (role_view (s\<lparr>clients := AList.map_entry c f (clients s)\<rparr>))"
proof -
  have d: "distinct (map fst (clients s))" using assms(1) by (simp add: role_ok_def role_view_def)
  have "\<And>x. x \<in> set (AList.map_entry c f (clients s)) \<Longrightarrow> c_role (snd x) = Some ''streamer''
           \<Longrightarrow> fst x \<in> set (map fst (streamers s))"
  proof -
    fix x assume x: "x \<in> set (AList.map_entry c f (clients s))"
      and r: "c_role (snd x) = Some ''streamer''"
    from set_map_entry_cases [OF x d]
    show "fst x \<in> set (map fst (streamers s))"
    proof
      assume "\<exists>v. (c, v) \<in> set (clients s) \<and> x = (c, f v)"
      then obtain v where v: "(c, v) \<in> set (clients s)" "x = (c, f v)" by blast
      then have "c_role v = Some ''streamer''" using r assms(2) by simp
      then show ?thesis using assms(1) v by (force simp: role_ok_def role_view_def)
    next
      assume "x \<in> set (clients s) \<and> fst x \<noteq> c"
      then show ?thesis using assms(1) r by (auto simp: role_ok_def role_view_def)
    qed
  qed
  then show ?thesis using d by (simp add: role_ok_def role_view_def)
qed

lemma role_ok_handle_register:
  assumes "role_ok (role_view s)"
  shows "role_ok (role_view (snd (handle_register c ws role name s)))"
proof (cases "map_of (clients s) c")
  case None
  then show ?thesis using assms by (simp add: handle_register_def)
next
  case (Some cl)
  let ?name = "if truthy name then the name else ''Device-'' @ take 8 c"
  let ?f = "\<lambda>x. x\<lparr>c_role := role, c_deviceName := Some ?name\<rparr>"
  let ?cs = "AList.map_entry c ?f (clients s)"
  let ?ks = "if role = Some ''streamer''
             then (if c \<in> set (map fst (streamers s)) then map fst (streamers s)
                   else map fst (streamers s) @ [c])
             else map fst (streamers s)"
  have v: "role_view (snd (handle_register c ws role name s)) = (?cs, ?ks)"
    unfolding handle_register_eq [OF Some]
    by (simp add: Let_def role_view_def update_keys)
  have d: "distinct (map fst (clients s))" using assms by (simp add: role_ok_def role_view_def)
  have "\<And>x. x \<in> set ?cs \<Longrightarrow> c_role (snd x) = Some ''streamer'' \<Longrightarrow> fst x \<in> set ?ks"
  proof -
    fix x assume x: "x \<in> set ?cs" and r: "c_role (snd x) = Some ''streamer''"
    from set_map_entry_cases [OF x d]
    show "fst x \<in> set ?ks"
    proof
      assume "\<exists>v. (c, v) \<in> set (clients s) \<and> x = (c, ?f v)"
      then obtain v where v: "x = (c, ?f v)" by blast
      then have "role = Some ''streamer''" using r by simp
      then show ?thesis using v by simp
    next
      assume a: "x \<in> set (clients s) \<and> fst x \<noteq> c"
      then have "fst x \<in> set (map fst (streamers s))"
        using assms r by (auto simp: role_ok_def role_view_def)
      then show ?thesis by simp
    qed
  qed
  then show ?thesis unfolding v using d by (simp add: role_ok_def)
qed

lemma role_ok_handle_stop_streaming:
  assumes "role_ok (role_view s)"
  shows "role_ok (role_view (snd (handle_stop_streaming e c ws s)))"
proof (cases "map_of (clients s) c")
  case None
  then show ?thesis using assms by (simp add: handle_stop_streaming_def)
next
  case (Some cl)
  let ?f = "\<lambda>x. x\<lparr>c_role := None\<rparr>"
  let ?cs = "AList.map_entry c ?f (clients s)"
  have v: "role_view (snd (handle_stop_streaming e c ws s))
             = (?cs, removeAll c (map fst (streamers s)))"
    unfolding handle_stop_streaming_eq [OF Some]
    by (simp add: role_view_def delete_keys)
  have d: "distinct (map fst (clients s))" using assms by (simp add: role_ok_def role_view_def)
  have "\<And>x. x \<in> set ?cs \<Longrightarrow> c_role (snd x) = Some ''streamer''
           \<Longrightarrow> fst x \<in> set (removeAll c (map fst (streamers s)))"
  proof -
    fix x assume x: "x \<in> set ?cs" and r: "c_role (snd x) = Some ''streamer''"
    from set_map_entry_cases [OF x d]
    show "fst x \<in> set (removeAll c (map fst (streamers s)))"
    proof
      assume "\<exists>v. (c, v) \<in> set (clients s) \<and> x = (c, ?f v)"
      then obtain v where v: "x = (c, ?f v)" by blast
      then show ?thesis using r by simp
    next
      assume a: "x \<in> set (clients s) \<and> fst x \<noteq> c"
      then have "fst x \<in> set (map fst (streamers s))"
        using assms r by (auto simp: role_ok_def role_view_def)
      then show ?thesis using a by simp
    qed
  qed
  then show ?thesis unfolding v using d by (simp add: role_ok_def)
qed

lemma role_ok_handleDisconnect:
  assumes "role_ok (role_view s)"
  shows "role_ok (role_view (handleDisconnect e c s))"
proof (cases "map_of (clients s) c")
  case None
  then show ?thesis using assms by (simp add: handleDisconnect_def)
next
  case (Some cl)
  have v: "role_view (handleDisconnect e c s)
             = (AList.delete c (clients s), removeAll c (map fst (streamers s)))"
    unfolding handleDisconnect_eq [OF Some]
    by (simp add: role_view_def delete_keys)
  have d: "distinct (map fst (AList.delete c (clients s)))"
    using assms by (simp add: role_ok_def role_view_def distinct_delete)
  have "\<And>x. x \<in> set (AList.delete c (clients s)) \<Longrightarrow> c_role (snd x) = Some ''streamer''
           \<Longrightarrow> fst x \<in> set (removeAll c (map fst (streamers s)))"
  proof -
    fix x assume x: "x \<in> set (AList.delete c (clients s))"
      and r: "c_role (snd x) = Some ''streamer''"
    have a: "x \<in> set (clients s) \<and> fst x \<noteq> c" using set_delete_cases [OF x] .
    then have "fst x \<in> set (map fst (streamers s))"
      using assms r by (auto simp: role_ok_def role_view_def)
    then show "fst x \<in> set (removeAll c (map fst (streamers s)))" using a by simp
  qed
  then show ?thesis unfolding v using d by (simp add: role_ok_def)
qed

lemma role_ok_handleMessage:
  assumes "role_ok (role_view s)"
  shows "role_ok (role_view (snd (handleMessage e c ws d s)))"
proof (cases d)
  case (Register role name)
  then show ?thesis using assms by (simp add: handleMessage_def role_ok_handle_register)
next
  case StopStreaming
  then show ?thesis using assms by (simp add: handleMessage_def role_ok_handle_stop_streaming)
qed (use assms in \<open>simp_all add: handleMessage_def\<close>)

lemma role_ok_on_message:
  assumes "role_ok (role_view s)"
  shows "role_ok (role_view (on_message e c ws raw s))"
proof (cases raw)
  case (Malformed m)
  show ?thesis unfolding Malformed on_message_Malformed using assms by simp
next
  case (Data d)
  obtain res s1 where h: "handleMessage e c ws d s = (res, s1)"
    by (cases "handleMessage e c ws d s")
  have i: "role_ok (role_view s1)"
    using role_ok_handleMessage [OF assms, of e c ws d] unfolding h by simp
  show ?thesis
  proof (cases res)
    case (Return u)
    show ?thesis
      unfolding Data on_message_Return [OF h [unfolded Return]] by (rule i)
  next
    case (Throw err)
    show ?thesis
      unfolding Data on_message_Throw [OF h [unfolded Throw]] using i by simp
  qed
qed

lemma role_ok_step: "role_ok (role_view s) \<Longrightarrow> role_ok (role_view (step ev s))"
proof (cases ev)
  case (Pair e x)
  assume inv: "role_ok (role_view s)"
  show ?thesis
  proof (cases x)
    case (Connection c ip)
    then show ?thesis using Pair inv by (simp add: role_ok_on_connection)
  next
    case (Message c raw)
    then show ?thesis using Pair inv by (simp add: role_ok_on_message split: option.splits)
  next
    case (SocketState c ws)
    have "role_ok (role_view (s\<lparr>clients := AList.map_entry c (\<lambda>x. x\<lparr>c_ws := ws\<rparr>) (clients s)\<rparr>))"
      using inv by (rule role_ok_map_entry_same_role) simp
    then show ?thesis using Pair SocketState by simp
  next
    case (Disconnect c)
    then show ?thesis using Pair inv by (simp add: role_ok_handleDisconnect)
  next
    case (TimerFires n)
    then show ?thesis using Pair inv by (simp add: role_view_alt)
  next
    case (DtlsClosed t)
    then show ?thesis using Pair inv by (simp add: role_view_alt)
  next
    case (EngineEmits r)
    then show ?thesis using Pair inv by (simp add: role_view_alt)
  next
    case (EncoderExit p)
    then show ?thesis using Pair inv by (simp add: role_view_alt)
  qed
qed

lemma role_ok_fold: "role_ok (role_view s) \<Longrightarrow> role_ok (role_view (fold step evs s))"
  by (induction evs arbitrary: s) (simp_all add: role_ok_step)

lemma role_ok_run: "role_ok (role_view (run evs (init b paths)))"
proof -
  have "role_ok (role_view (init b paths))"
    by (simp add: role_ok_def role_view_def init_def)
  then show ?thesis unfolding run_def by (rule role_ok_fold)
qed

lemma registered_streamers_hold_records:
  assumes "role_ok (role_view s)"
  shows "filter (\<lambda>id. id \<notin> set (map fst (streamers s))) (registered_streamers s) = []"
proof -
  have "\<And>x. x \<in> set (clients s) \<Longrightarrow> c_role (snd x) = Some ''streamer''
          \<Longrightarrow> fst x \<in> set (map fst (streamers s))"
    using assms by (auto simp: role_ok_def role_view_def)
  then show ?thesis
    by (auto simp: registered_streamers_def filter_empty_conv)
qed

section \<open>The concrete run, evaluated\<close>

lemmas eval_defs = run_def init_def env0_def env1_def on_connection_def on_message_def
  handleMessage_def handle_register_def handle_create_transport_def handle_produce_def
  send_def broadcastToMasters_def createWebRtcTransport_def createProducer_def
  startRecording_def startRecording_body_def rec_connect_def rec_spawn_def getNextPort_def
  truthy_def safeDeviceName_def timestamp_of_def path_join_def codecName_of_def toUpperCase_def
  ffmpegArgs_def safe_char_def Let_def

lemma state_streaming_eq:
  "state_streaming =
    \<lparr>clients = [(''c1'', \<lparr>c_ws = OPEN, c_role = Some ''streamer'',
                           c_deviceName = Some ''Front Door'', c_clientIp = ''10.0.0.2''\<rparr>)],
     streamers = [(''c1'', \<lparr>s_deviceName = ''Front Door'', s_producers = [''p1''],
                             s_transports = [''t1'']\<rparr>)],
     masters = [],
     transports = [(''t1'', \<lparr>t_clientId = ''c1''\<rparr>)],
     producers = [(''p1'', \<lparr>p_clientId = ''c1'', p_deviceName = Some ''Front Door'',
                             p_kind = ''video''\<rparr>)],
     consumers = [],
     recordings = [(''p1'', \<lparr>r_plainTransport = ''pt1'', r_consumer = ''rc1'', r_ffmpeg = 1,
          r_filepath = ''/srv/recordings/Front_Door_2024-01-01T00-00-00-000Z.mkv'',
          r_sdpPath = ''/srv/recordings/p1.sdp'', r_deviceName = Some ''Front Door'',
          r_rtpPort = 20000, r_startTime = 5000\<rparr>)],
     nextRtpPort = 20002, ffmpegAvailable = True, closed = [], killed = [],
     fs = [''/srv/recordings'', ''/srv/recordings/p1.sdp''], timers = [],
     effects = [CreateWebRtcTransport ''c1'' ''t1'', ProduceOn ''t1'' ''p1'' ''video'',
       CreatePlainTransport ''pt1'', ConsumeOn ''pt1'' ''p1'' ''rc1'',
       PlainConnect ''pt1'' 20000 20001,
       WriteFile ''/srv/recordings/p1.sdp''
        \<lparr>sdp_port = 20000, sdp_payloadType = 101, sdp_codecName = ''VP8'',
           sdp_clockRate = 90000, sdp_ssrc = 1234\<rparr>,
       Spawn 1 (ffmpegArgs ''/srv/recordings/p1.sdp''
                  ''/srv/recordings/Front_Door_2024-01-01T00-00-00-000Z.mkv''),
       ResumeConsumer ''rc1''],
     sent = [(''c1'', Welcome ''c1''), (''c1'', Registered (Some ''streamer'') ''Front Door''),
             (''c1'', TransportCreated ''send'' ''t1''), (''c1'', Produced ''p1'' ''video'')]\<rparr>"
  by (simp add: state_streaming_def front_door_def eval_defs)

lemma startRecording_success:
  assumes av: "ffmpegAvailable s"
    and pr: "map_of (producers s) producerId = Some pd"
    and dir: "e_recordingsDir e \<in> set (fs s)"
    and pt: "e_createPlainTransport e = Inr plainTransport"
    and co: "e_recConsume e = Inr consumer"
    and cc: "cd_codec consumer = Some (mimeType, payloadType, clockRate)"
    and cn: "codecName_of mimeType = Some codecName"
    and ss: "cd_ssrc consumer = Some ssrc"
    and ok: "e_plainConnect e = None" "e_writeFile e = None" "e_recResume e = None"
  shows "startRecording e producerId deviceName s =
     (let filename = safeDeviceName deviceName @ ''_'' @ timestamp_of (e_iso e) @ ''.mkv'';
          filepath = path_join (e_recordingsDir e) filename;
          sdpPath = path_join (e_recordingsDir e) (producerId @ ''.sdp'')
      in (Return (Some (filepath, filename)),
          s\<lparr>nextRtpPort := (if nextRtpPort s + 2 > 30000 then 20000 else nextRtpPort s + 2),
            fs := (if sdpPath \<in> set (fs s) then fs s else fs s @ [sdpPath]),
            effects := effects s @
              [CreatePlainTransport plainTransport,
               ConsumeOn plainTransport producerId (cd_id consumer),
               PlainConnect plainTransport (nextRtpPort s) (nextRtpPort s + 1),
               WriteFile sdpPath \<lparr>sdp_port = nextRtpPort s, sdp_payloadType = payloadType,
                  sdp_codecName = codecName, sdp_clockRate = clockRate, sdp_ssrc = ssrc\<rparr>,
               Spawn (e_spawn e) (ffmpegArgs sdpPath filepath),
               ResumeConsumer (cd_id consumer)],
            recordings := AList.update producerId
               \<lparr>r_plainTransport = plainTransport, r_consumer = cd_id consumer,
                r_ffmpeg = e_spawn e, r_filepath = filepath, r_sdpPath = sdpPath,
                r_deviceName = deviceName, r_rtpPort = nextRtpPort s,
                r_startTime = e_now e\<rparr> (recordings s)\<rparr>))"
  using assms
  by (simp add: startRecording_def startRecording_body_def rec_connect_def rec_spawn_def
      getNextPort_def Let_def)

lemma run_append: "run (a @ b) s = run b (run a s)"
  by (simp add: run_def)

lemmas ws_eval_defs = run_def on_connection_def on_message_def handleMessage_def
  handle_register_def send_def broadcastToMasters_def streamerList_def
  getProducersByClient_def truthy_def Let_def

lemma state_arrived_eq:
  "state_arrived = state_streaming
     \<lparr>clients := [(''c1'', \<lparr>c_ws = OPEN, c_role = Some ''streamer'',
                            c_deviceName = Some ''Front Door'', c_clientIp = ''10.0.0.2''\<rparr>),
                  (''c2'', \<lparr>c_ws = OPEN, c_role = Some ''streamer'',
                            c_deviceName = Some ''Device-c2'', c_clientIp = ''10.0.0.3''\<rparr>),
                  (''m1'', \<lparr>c_ws = OPEN, c_role = None,
                            c_deviceName = None, c_clientIp = ''10.0.0.9''\<rparr>)],
      streamers := [(''c1'', \<lparr>s_deviceName = ''Front Door'', s_producers = [''p1''],
                             s_transports = [''t1'']\<rparr>),
                    (''c2'', \<lparr>s_deviceName = ''Device-c2'', s_producers = [],
                             s_transports = []\<rparr>)],
      sent := sent state_streaming @
              [(''c2'', Welcome ''c2''), (''c2'', Registered (Some ''streamer'') ''Device-c2''),
               (''m1'', Welcome ''m1'')]\<rparr>"
proof -
  have "state_arrived = run (back_yard @ viewer_connects) state_streaming"
    by (simp add: state_arrived_def state_streaming_def run_append)
  then show ?thesis
    by (simp add: state_streaming_eq back_yard_def viewer_connects_def ws_eval_defs)
qed

lemma state_watched_eq:
  "state_watched = state_arrived
     \<lparr>clients := [(''c1'', \<lparr>c_ws = OPEN, c_role = Some ''streamer'',
                            c_deviceName = Some ''Front Door'', c_clientIp = ''10.0.0.2''\<rparr>),
                  (''c2'', \<lparr>c_ws = OPEN, c_role = Some ''streamer'',
                            c_deviceName = Some ''Device-c2'', c_clientIp = ''10.0.0.3''\<rparr>),
                  (''m1'', \<lparr>c_ws = OPEN, c_role = Some ''master'',
                            c_deviceName = Some ''Desk'', c_clientIp = ''10.0.0.9''\<rparr>)],
      masters := [''m1''],
      sent := sent state_arrived @
              [(''m1'', StreamerList [(''c1'', ''Front Door'', [(''p1'', ''video'')]),
                                      (''c2'', ''Device-c2'', [])]),
               (''m1'', Registered (Some ''master'') ''Desk'')]\<rparr>"
proof -
  have "state_watched = run viewer_registers state_arrived"
    by (simp add: state_watched_def state_arrived_def run_append [symmetric])
  then show ?thesis
    by (simp add: state_arrived_eq state_streaming_eq viewer_registers_def ws_eval_defs)
qed

lemma state_watched_fields:
  "clients state_watched =
     [(''c1'', \<lparr>c_ws = OPEN, c_role = Some ''streamer'',
                c_deviceName = Some ''Front Door'', c_clientIp = ''10.0.0.2''\<rparr>),
      (''c2'', \<lparr>c_ws = OPEN, c_role = Some ''streamer'',
                c_deviceName = Some ''Device-c2'', c_clientIp = ''10.0.0.3''\<rparr>),
      (''m1'', \<lparr>c_ws = OPEN, c_role = Some ''master'',
                c_deviceName = Some ''Desk'', c_clientIp = ''10.0.0.9''\<rparr>)]"
  "streamers state_watched =
     [(''c1'', \<lparr>s_deviceName = ''Front Door'', s_producers = [''p1''],
                s_transports = [''t1'']\<rparr>),
      (''c2'', \<lparr>s_deviceName = ''Device-c2'', s_producers = [], s_transports = []\<rparr>)]"
  "masters state_watched = [''m1'']"
  "transports state_watched = [(''t1'', \<lparr>t_clientId = ''c1''\<rparr>)]"
  "producers state_watched =
     [(''p1'', \<lparr>p_clientId = ''c1'', p_deviceName = Some ''Front Door'', p_kind = ''video''\<rparr>)]"
  "consumers state_watched = []"
  "map fst (recordings state_watched) = [''p1'']"
  by (simp_all add: state_watched_eq state_arrived_eq state_streaming_eq)

lemma open_masters_watched: "open_masters state_watched = [''m1'']"
  by (simp add: open_masters_def state_watched_fields)

lemma state_closing_c1:
  "map_of (clients state_closing) ''c1''
     = Some \<lparr>c_ws = CLOSING, c_role = Some ''streamer'',
             c_deviceName = Some ''Front Door'', c_clientIp = ''10.0.0.2''\<rparr>"
  by (simp add: state_closing_def state_watched_fields)

lemmas cex_defs = on_message_def handleMessage_def handle_register_def send_def
  broadcastToMasters_def truthy_def Let_def

lemma state_switched_eq:
  "state_switched = state_streaming
     \<lparr>clients := [(''c1'', \<lparr>c_ws = OPEN, c_role = Some ''master'',
                            c_deviceName = Some ''Front Door'', c_clientIp = ''10.0.0.2''\<rparr>),
                  (''m1'', \<lparr>c_ws = OPEN, c_role = None,
                            c_deviceName = None, c_clientIp = ''10.0.0.9''\<rparr>)],
      masters := [''c1''],
      sent := sent state_streaming @
              [(''c1'', StreamerList [(''c1'', ''Front Door'', [(''p1'', ''video'')])]),
               (''c1'', Registered (Some ''master'') ''Front Door''),
               (''m1'', Welcome ''m1'')]\<rparr>"
proof -
  have "state_switched = run (switches @ viewer_connects) state_streaming"
    by (simp add: state_switched_def state_streaming_def run_append)
  then show ?thesis
    by (simp add: state_streaming_eq switches_def viewer_connects_def ws_eval_defs)
qed

lemmas stop_eval_defs = run_def on_message_def handleMessage_def handle_stop_streaming_def
  stop_recordings_of_def getProducersByClient_def stopRecording_def close_resource_def
  mark_closed_def fire.simps cleanupClient_def broadcastToMasters_def send_def Let_def

lemma state_dtls_closed_eq:
  "state_dtls_closed = state_streaming
     \<lparr>producers := [],
      closed := [Transport ''t1'', Producer ''p1''],
      effects := effects state_streaming @ [Close (Transport ''t1'')]\<rparr>"
proof -
  have "state_dtls_closed = run dtls_closes state_streaming"
    by (simp add: state_dtls_closed_def state_streaming_def run_append)
  then show ?thesis
    by (simp add: state_streaming_eq dtls_closes_def env_dtls_def env0_def stop_eval_defs)
qed

lemma after_stop_normal:
  "run (front_door @ stops) (init True [''/srv/recordings'']) = state_streaming
     \<lparr>clients := [(''c1'', \<lparr>c_ws = OPEN, c_role = None,
                            c_deviceName = Some ''Front Door'', c_clientIp = ''10.0.0.2''\<rparr>)],
      streamers := [], transports := [], producers := [], recordings := [],
      closed := [Consumer ''rc1'', Producer ''p1'', Transport ''t1''],
      timers := [(500, StopSequence session1)],
      effects := effects state_streaming @
         [Close (Consumer ''rc1''), Close (Producer ''p1''), Close (Transport ''t1'')],
      sent := sent state_streaming @ [(''c1'', StreamingStopped)]\<rparr>"
proof -
  have "run (front_door @ stops) (init True [''/srv/recordings'']) = run stops state_streaming"
    by (simp add: state_streaming_def run_append)
  then show ?thesis
    by (simp add: state_streaming_eq stops_def env1_def env0_def session1_def stop_eval_defs)
qed

lemma after_stop_dtls:
  "run (front_door @ dtls_closes @ stops) (init True [''/srv/recordings'']) = state_dtls_closed
     \<lparr>clients := [(''c1'', \<lparr>c_ws = OPEN, c_role = None,
                            c_deviceName = Some ''Front Door'', c_clientIp = ''10.0.0.2''\<rparr>)],
      streamers := [], transports := [],
      effects := effects state_dtls_closed @ [Close (Transport ''t1'')],
      sent := sent state_dtls_closed @ [(''c1'', StreamingStopped)]\<rparr>"
proof -
  have "run (front_door @ dtls_closes @ stops) (init True [''/srv/recordings''])
          = run stops state_dtls_closed"
    by (simp add: state_dtls_closed_def run_append [symmetric])
  then show ?thesis
    by (simp add: state_dtls_closed_eq state_streaming_eq stops_def env1_def env0_def
        stop_eval_defs)
qed

section \<open>The recorder\<close>

text \<open>
  C9. In every state the server reaches, the port getNextPort returns is even and lies
  between 20000 and 30000, so the RTCP port, one above, is at most 30001; the call after
  it returns the port two above, or 20000 once that would pass 30000.
\<close>

theorem getNextPort_even_in_range:
  "even (fst (getNextPort (run evs (init ffmpegFound paths))))
   \<and> 20000 \<le> fst (getNextPort (run evs (init ffmpegFound paths)))
   \<and> fst (getNextPort (run evs (init ffmpegFound paths))) \<le> 30000
   \<and> fst (getNextPort (run evs (init ffmpegFound paths))) + 1 \<le> 30001
   \<and> fst (getNextPort (snd (getNextPort (run evs (init ffmpegFound paths)))))
       = (if fst (getNextPort (run evs (init ffmpegFound paths))) + 2 > 30000 then 20000
          else fst (getNextPort (run evs (init ffmpegFound paths))) + 2)"
  using rec_inv_run [of ffmpegFound evs paths]
  by (simp add: rec_inv_def port_ok_def getNextPort_def Let_def)

text \<open>
  C3. With the encoder not found at load time, in every state the server reaches
  (whatever was produced before) startRecording returns \<open>null\<close> without throwing and
  leaves the state as it is, a video produce leaves the recordings map empty, the map is
  empty, isRecordingEnabled is false and getActiveRecordings is the empty list.
\<close>

theorem startRecording_disabled:
  "startRecording e producerId deviceName (run evs (init False paths))
     = (Return None, run evs (init False paths))
   \<and> recordings (snd (handle_produce e clientId ws transportId ''video'' rtpParameters
                        (run evs (init False paths)))) = []
   \<and> recordings (run evs (init False paths)) = []
   \<and> \<not> isRecordingEnabled (run evs (init False paths))
   \<and> getActiveRecordings e (run evs (init False paths)) = []"
  using rec_inv_run [of False evs paths]
    rec_inv_handle_produce [OF rec_inv_run [of False evs paths],
      of e clientId ws transportId "''video''" rtpParameters]
  by (simp add: rec_inv_def startRecording_gate isRecordingEnabled_def
      getActiveRecordings_def)

text \<open>
  C10. stopRecording on a producer id the recordings map does not hold returns \<open>null\<close>
  and the state after it is the state before it: no entry, consumer, transport, timer,
  file or external call is touched.
\<close>

theorem stopRecording_absent:
  "map_of (recordings s) producerId = None \<Longrightarrow> stopRecording e producerId s = (None, s)"
  by (simp add: stopRecording_def)

text \<open>
  The front door is recording producer \<open>p1\<close>; stopping the unknown \<open>p9\<close> changes
  nothing.
\<close>

theorem stopRecording_absent_witness:
  "map_of (recordings state_streaming) ''p9'' = None
   \<and> stopRecording env1 ''p9'' state_streaming = (None, state_streaming)"
proof -
  have h: "map_of (recordings state_streaming) ''p9'' = None"
    by (simp add: state_streaming_eq)
  show ?thesis using h stopRecording_absent [OF h, of env1] by simp
qed

text \<open>
  C2, as the code has it. The recordings map holds at most one session per producer id in
  every state the server reaches. startRecording does not look into that map: with the
  encoder available, the producer present and every step of the start sequence
  succeeding, it spawns an encoder and stores the new session under the producer id,
  in place of a session already there, and returns the new file's path and name.
\<close>

theorem startRecording_replaces_session:
  assumes "s = run evs (init True paths)"
    and "map_of (producers s) producerId = Some pd"
    and "e_recordingsDir e \<in> set (fs s)"
    and "e_createPlainTransport e = Inr plainTransport"
    and "e_recConsume e = Inr consumer"
    and "cd_codec consumer = Some (mimeType, payloadType, clockRate)"
    and "codecName_of mimeType = Some codecName"
    and "cd_ssrc consumer = Some ssrc"
    and "e_plainConnect e = None" and "e_writeFile e = None" and "e_recResume e = None"
  shows
    "(let filename = safeDeviceName deviceName @ ''_'' @ timestamp_of (e_iso e) @ ''.mkv'';
          filepath = path_join (e_recordingsDir e) filename;
          sdpPath = path_join (e_recordingsDir e) (producerId @ ''.sdp'');
          session = \<lparr>r_plainTransport = plainTransport, r_consumer = cd_id consumer,
                r_ffmpeg = e_spawn e, r_filepath = filepath, r_sdpPath = sdpPath,
                r_deviceName = deviceName, r_rtpPort = nextRtpPort s,
                r_startTime = e_now e\<rparr>;
          s' = snd (startRecording e producerId deviceName s)
      in distinct (map fst (recordings s))
       \<and> fst (startRecording e producerId deviceName s) = Return (Some (filepath, filename))
       \<and> effects s' = effects s @
              [CreatePlainTransport plainTransport,
               ConsumeOn plainTransport producerId (cd_id consumer),
               PlainConnect plainTransport (nextRtpPort s) (nextRtpPort s + 1),
               WriteFile sdpPath \<lparr>sdp_port = nextRtpPort s, sdp_payloadType = payloadType,
                  sdp_codecName = codecName, sdp_clockRate = clockRate, sdp_ssrc = ssrc\<rparr>,
               Spawn (e_spawn e) (ffmpegArgs sdpPath filepath),
               ResumeConsumer (cd_id consumer)]
       \<and> recordings s' = AList.update producerId session (recordings s)
       \<and> map_of (recordings s') producerId = Some session
       \<and> distinct (map fst (recordings s')))"
proof -
  have inv: "rec_inv True s" unfolding assms(1) by (rule rec_inv_run)
  then have av: "ffmpegAvailable s" and d: "distinct (map fst (recordings s))"
    by (simp_all add: rec_inv_def)
  note eq = startRecording_success [OF av assms(2-11), of deviceName]
  show ?thesis
    unfolding eq using d by (simp add: Let_def update_conv' distinct_update)
qed

text \<open>
  The front door is already recording \<open>p1\<close> with encoder 1; a second start spawns
  encoder 2 and the map holds that session alone.
\<close>

theorem startRecording_replaces_session_witness:
  "state_streaming = run front_door (init True [''/srv/recordings''])
   \<and> map_of (producers state_streaming) ''p1''
       = Some \<lparr>p_clientId = ''c1'', p_deviceName = Some ''Front Door'', p_kind = ''video''\<rparr>
   \<and> e_recordingsDir env1 \<in> set (fs state_streaming)
   \<and> map_of (recordings state_streaming) ''p1'' \<noteq> None
   \<and> fst (startRecording env1 ''p1'' (Some ''Front Door'') state_streaming)
       = Return (Some (''/srv/recordings/Front_Door_2024-01-01T00-00-04-000Z.mkv'',
                       ''Front_Door_2024-01-01T00-00-04-000Z.mkv''))
   \<and> map (\<lambda>(k, r). (k, r_ffmpeg r))
        (recordings (snd (startRecording env1 ''p1'' (Some ''Front Door'') state_streaming)))
       = [(''p1'', 2)]"
proof -
  have h1: "state_streaming = run front_door (init True [''/srv/recordings''])"
    by (simp add: state_streaming_def)
  have h2: "map_of (producers state_streaming) ''p1''
       = Some \<lparr>p_clientId = ''c1'', p_deviceName = Some ''Front Door'', p_kind = ''video''\<rparr>"
    by (simp add: state_streaming_eq)
  have h3: "e_recordingsDir env1 \<in> set (fs state_streaming)"
    by (simp add: state_streaming_eq env1_def env0_def)
  have h4: "e_createPlainTransport env1 = Inr ''pt2''"
    and h5: "e_recConsume env1 = Inr \<lparr>cd_id = ''rc2'', cd_codec = Some (''video/VP8'', 101, 90000),
                                    cd_ssrc = Some 1234\<rparr>"
    and h9: "e_plainConnect env1 = None" "e_writeFile env1 = None" "e_recResume env1 = None"
    by (simp_all add: env1_def env0_def)
  have h6: "cd_codec \<lparr>cd_id = ''rc2'', cd_codec = Some (''video/VP8'', 101, 90000),
                                    cd_ssrc = Some 1234\<rparr> = Some (''video/VP8'', 101, 90000)"
    and h8: "cd_ssrc \<lparr>cd_id = ''rc2'', cd_codec = Some (''video/VP8'', 101, 90000),
                                    cd_ssrc = Some 1234\<rparr> = Some 1234"
    by simp_all
  have h7: "codecName_of ''video/VP8'' = Some ''VP8''"
    by (simp add: codecName_of_def toUpperCase_def)
  note t = startRecording_replaces_session [OF h1 h2 h3 h4 h5 h6 h7 h8 h9, of "Some ''Front Door''"]
  have r: "map_of (recordings state_streaming) ''p1'' \<noteq> None"
    by (simp add: state_streaming_eq)
  have c1: "fst (startRecording env1 ''p1'' (Some ''Front Door'') state_streaming)
       = Return (Some (''/srv/recordings/Front_Door_2024-01-01T00-00-04-000Z.mkv'',
                       ''Front_Door_2024-01-01T00-00-04-000Z.mkv''))"
    using t
    by (simp add: Let_def env1_def env0_def safeDeviceName_def truthy_def
        safe_char_def timestamp_of_def path_join_def)
  have c2: "map (\<lambda>(k, r). (k, r_ffmpeg r))
        (recordings (snd (startRecording env1 ''p1'' (Some ''Front Door'') state_streaming)))
       = [(''p1'', 2)]"
    using t by (simp add: Let_def state_streaming_eq env1_def env0_def)
  show ?thesis
    using h1 h2 h3 r c1 c2 by blast
qed

text \<open>
  C2, as the specification states it, fails: started again for \<open>p1\<close> while its session
  is in the map, startRecording does not return that session and is no no-op. It sets up
  a second capture transport and consumer, spawns a second encoder and overwrites the
  entry.
\<close>

theorem startRecording_existing_session_counterexample:
  "map_of (recordings state_streaming) ''p1''
     = Some \<lparr>r_plainTransport = ''pt1'', r_consumer = ''rc1'', r_ffmpeg = 1,
          r_filepath = ''/srv/recordings/Front_Door_2024-01-01T00-00-00-000Z.mkv'',
          r_sdpPath = ''/srv/recordings/p1.sdp'', r_deviceName = Some ''Front Door'',
          r_rtpPort = 20000, r_startTime = 5000\<rparr>
   \<and> fst (startRecording env1 ''p1'' (Some ''Front Door'') state_streaming)
     = Return (Some (''/srv/recordings/Front_Door_2024-01-01T00-00-04-000Z.mkv'',
                     ''Front_Door_2024-01-01T00-00-04-000Z.mkv''))
   \<and> effects (snd (startRecording env1 ''p1'' (Some ''Front Door'') state_streaming))
     = effects state_streaming @
       [CreatePlainTransport ''pt2'', ConsumeOn ''pt2'' ''p1'' ''rc2'',
        PlainConnect ''pt2'' 20002 20003,
        WriteFile ''/srv/recordings/p1.sdp''
          \<lparr>sdp_port = 20002, sdp_payloadType = 101, sdp_codecName = ''VP8'',
           sdp_clockRate = 90000, sdp_ssrc = 1234\<rparr>,
        Spawn 2 (ffmpegArgs ''/srv/recordings/p1.sdp''
                   ''/srv/recordings/Front_Door_2024-01-01T00-00-04-000Z.mkv''),
        ResumeConsumer ''rc2'']
   \<and> map_of (recordings (snd (startRecording env1 ''p1'' (Some ''Front Door'') state_streaming)))
        ''p1''
     = Some \<lparr>r_plainTransport = ''pt2'', r_consumer = ''rc2'', r_ffmpeg = 2,
          r_filepath = ''/srv/recordings/Front_Door_2024-01-01T00-00-04-000Z.mkv'',
          r_sdpPath = ''/srv/recordings/p1.sdp'', r_deviceName = Some ''Front Door'',
          r_rtpPort = 20002, r_startTime = 9000\<rparr>"
  by (simp add: state_streaming_eq eval_defs)

section \<open>The media registries\<close>

text \<open>
  C7. cleanupClient is idempotent, whatever the engine emits on a close: a second call
  returns the state the first one left, so it makes no further close call and raises
  nothing (the function has no failing branch); after one call the producers, consumers
  and transports maps hold no entry owned by the client; and on a client that owns no
  entry the call changes nothing.
\<close>

theorem cleanupClient_idempotent:
  "cleanupClient e' clientId (cleanupClient e clientId s) = cleanupClient e clientId s
   \<and> filter (\<lambda>(i, d). p_clientId d = clientId) (producers (cleanupClient e clientId s)) = []
   \<and> filter (\<lambda>(i, d). k_clientId d = clientId) (consumers (cleanupClient e clientId s)) = []
   \<and> filter (\<lambda>(i, d). t_clientId d = clientId) (transports (cleanupClient e clientId s)) = []
   \<and> (filter (\<lambda>(i, d). p_clientId d = clientId) (producers s) = []
      \<and> filter (\<lambda>(i, d). k_clientId d = clientId) (consumers s) = []
      \<and> filter (\<lambda>(i, d). t_clientId d = clientId) (transports s) = []
      \<longrightarrow> cleanupClient e clientId s = s)"
proof -
  note post = cleanupClient_post [of clientId e s]
  have "cleanupClient e' clientId (cleanupClient e clientId s) = cleanupClient e clientId s"
    using post by (intro cleanupClient_noop) simp_all
  then show ?thesis using post cleanupClient_noop [of clientId s e] by blast
qed

text \<open>
  The viewer \<open>m1\<close> owns nothing: cleaning up after it changes nothing. The camera \<open>c1\<close>
  owns producer \<open>p1\<close>: it is gone after one cleanup, and a second one is the identity.
\<close>

theorem cleanupClient_idempotent_witness:
  "filter (\<lambda>(i, d). p_clientId d = ''m1'') (producers state_watched) = []
   \<and> filter (\<lambda>(i, d). k_clientId d = ''m1'') (consumers state_watched) = []
   \<and> filter (\<lambda>(i, d). t_clientId d = ''m1'') (transports state_watched) = []
   \<and> cleanupClient env0 ''m1'' state_watched = state_watched
   \<and> cleanupClient env1 ''c1'' (cleanupClient env0 ''c1'' state_watched)
       = cleanupClient env0 ''c1'' state_watched
   \<and> getProducersByClient ''c1'' state_watched = [(''p1'', ''video'')]
   \<and> getProducersByClient ''c1'' (cleanupClient env0 ''c1'' state_watched) = []"
proof -
  have h: "filter (\<lambda>(i, d). p_clientId d = ''m1'') (producers state_watched) = []"
    "filter (\<lambda>(i, d). k_clientId d = ''m1'') (consumers state_watched) = []"
    "filter (\<lambda>(i, d). t_clientId d = ''m1'') (transports state_watched) = []"
    by (simp_all add: state_watched_fields)
  have g: "getProducersByClient ''c1'' state_watched = [(''p1'', ''video'')]"
    by (simp add: getProducersByClient_def state_watched_fields)
  have n: "getProducersByClient ''c1'' (cleanupClient env0 ''c1'' state_watched) = []"
    using cleanupClient_idempotent [of env1 "''c1''" env0 state_watched]
    by (simp add: getProducersByClient_def)
  show ?thesis
    using h g n cleanupClient_idempotent [of env0 "''m1''" env0 state_watched]
      cleanupClient_idempotent [of env1 "''c1''" env0 state_watched]
    by blast
qed

text \<open>
  C4. A \<open>consume\<close> naming a producer id the producers map does not hold throws
  \<open>Transport ... not found\<close> or \<open>Producer ... not found\<close> before anything is changed: the
  one effect of the frame is the \<open>error\<close> frame written to the requester's socket (if it is
  OPEN), and clients, masters, consumers and every other part of the state stay as they
  were. And createConsumer asks canConsume before it creates: where the router cannot
  consume, the call throws with the state untouched, no consumer made.
\<close>

theorem consume_unknown_producer:
  "(map_of (producers s) producerId = None \<longrightarrow>
      on_message e clientId ws (Data (Consume transportId producerId rtpCapabilities)) s
        = s\<lparr>sent := sent s @
             (if ws = OPEN
              then [(clientId, ErrorMsg (if map_of (transports s) transportId = None
                                         then ''Transport '' @ transportId @ '' not found''
                                         else ''Producer '' @ producerId @ '' not found''))]
              else [])\<rparr>)
   \<and> (\<not> e_canConsume e producerId rtpCapabilities \<longrightarrow>
        snd (createConsumer e transportId producerId rtpCapabilities clientId s) = s
        \<and> fst (createConsumer e transportId producerId rtpCapabilities clientId s)
            \<in> {Throw (''Transport '' @ transportId @ '' not found''),
                Throw (''Producer '' @ producerId @ '' not found''),
                Throw (''Cannot consume producer '' @ producerId)})"
proof -
  have a: "map_of (producers s) producerId = None \<Longrightarrow>
      on_message e clientId ws (Data (Consume transportId producerId rtpCapabilities)) s
        = s\<lparr>sent := sent s @
             (if ws = OPEN
              then [(clientId, ErrorMsg (if map_of (transports s) transportId = None
                                         then ''Transport '' @ transportId @ '' not found''
                                         else ''Producer '' @ producerId @ '' not found''))]
              else [])\<rparr>"
  proof -
    assume n: "map_of (producers s) producerId = None"
    let ?msg = "if map_of (transports s) transportId = None
                then ''Transport '' @ transportId @ '' not found''
                else ''Producer '' @ producerId @ '' not found''"
    have c: "createConsumer e transportId producerId rtpCapabilities clientId s = (Throw ?msg, s)"
      using n by (simp add: createConsumer_def split: option.splits)
    have h: "handleMessage e clientId ws (Consume transportId producerId rtpCapabilities) s
               = (Throw ?msg, s)"
      by (simp add: handleMessage_def handle_consume_def c)
    show ?thesis
      unfolding on_message_Throw [OF h] by (simp add: send_def)
  qed
  have b: "\<not> e_canConsume e producerId rtpCapabilities \<Longrightarrow>
        snd (createConsumer e transportId producerId rtpCapabilities clientId s) = s
        \<and> fst (createConsumer e transportId producerId rtpCapabilities clientId s)
            \<in> {Throw (''Transport '' @ transportId @ '' not found''),
                Throw (''Producer '' @ producerId @ '' not found''),
                Throw (''Cannot consume producer '' @ producerId)}"
    by (simp add: createConsumer_def split: option.splits)
  show ?thesis using a b by blast
qed

text \<open>
  The viewer asks for the unknown \<open>p9\<close> and is told so, alone; with an engine that can
  consume nothing, asking for \<open>p1\<close> throws and creates nothing.
\<close>

theorem consume_unknown_producer_witness:
  "map_of (producers state_watched) ''p9'' = None
   \<and> on_message env0 ''m1'' OPEN (Data (Consume ''t1'' ''p9'' ''caps'')) state_watched
       = state_watched\<lparr>sent := sent state_watched
                          @ [(''m1'', ErrorMsg ''Producer p9 not found'')]\<rparr>
   \<and> \<not> e_canConsume env_strict ''p1'' ''caps''
   \<and> snd (createConsumer env_strict ''t1'' ''p1'' ''caps'' ''m1'' state_watched) = state_watched
   \<and> fst (createConsumer env_strict ''t1'' ''p1'' ''caps'' ''m1'' state_watched)
       = Throw ''Cannot consume producer p1''"
proof -
  have a: "map_of (producers state_watched) ''p9'' = None"
    by (simp add: state_watched_fields)
  have t: "map_of (transports state_watched) ''t1'' \<noteq> None"
    by (simp add: state_watched_fields)
  have b: "\<not> e_canConsume env_strict ''p1'' ''caps''"
    by (simp add: env_strict_def env0_def)
  have w1: "on_message env0 ''m1'' OPEN (Data (Consume ''t1'' ''p9'' ''caps'')) state_watched
       = state_watched\<lparr>sent := sent state_watched
                          @ [(''m1'', ErrorMsg ''Producer p9 not found'')]\<rparr>"
    using a t consume_unknown_producer [of state_watched "''p9''" env0 "''m1''" OPEN "''t1''"
        "''caps''"] by simp
  have w2: "snd (createConsumer env_strict ''t1'' ''p1'' ''caps'' ''m1'' state_watched)
              = state_watched"
    using b consume_unknown_producer [of state_watched "''p1''" env_strict "''m1''" OPEN "''t1''"
        "''caps''"] by blast
  have w3: "fst (createConsumer env_strict ''t1'' ''p1'' ''caps'' ''m1'' state_watched)
       = Throw ''Cannot consume producer p1''"
    using b by (simp add: createConsumer_def state_watched_fields)
  show ?thesis using a b w1 w2 w3 by blast
qed

section \<open>Signalling\<close>

text \<open>
  C8. A \<open>pan-zoom\<close> whose target is not in \<open>clients\<close>, or is there with a socket that is
  not OPEN, changes nothing: no frame to anyone, no error to the sender. With the target
  present and its socket OPEN, the one effect is a single \<open>pan-zoom-command\<close> frame with
  the zoom and pan fields, to the target.
\<close>

theorem pan_zoom_forwarding:
  "(map_of (clients s) targetClientId = None \<longrightarrow>
      on_message e clientId ws (Data (PanZoom targetClientId zoom panX panY)) s = s)
   \<and> (map_of (clients s) targetClientId = Some targetClient \<and> c_ws targetClient \<noteq> OPEN \<longrightarrow>
      on_message e clientId ws (Data (PanZoom targetClientId zoom panX panY)) s = s)
   \<and> (map_of (clients s) targetClientId = Some targetClient \<and> c_ws targetClient = OPEN \<longrightarrow>
      on_message e clientId ws (Data (PanZoom targetClientId zoom panX panY)) s
        = s\<lparr>sent := sent s @ [(targetClientId, PanZoomCommand zoom panX panY)]\<rparr>)"
proof -
  have h: "handleMessage e clientId ws (PanZoom targetClientId zoom panX panY) s
             = (Return (), snd (handle_pan_zoom targetClientId zoom panX panY s))"
    by (simp add: handleMessage_def handle_pan_zoom_def split: option.splits)
  show ?thesis
    unfolding on_message_Return [OF h]
    by (simp add: handle_pan_zoom_def send_def)
qed

text \<open>
  The viewer steers the unknown \<open>zz\<close>, the camera \<open>c1\<close> while its socket closes, and
  \<open>c1\<close> with its socket open.
\<close>

theorem pan_zoom_forwarding_witness:
  "map_of (clients state_watched) ''zz'' = None
   \<and> on_message env0 ''m1'' OPEN (Data (PanZoom ''zz'' (Some ''2'') (Some ''0.5'') None))
        state_watched = state_watched
   \<and> map_of (clients state_closing) ''c1''
        = Some \<lparr>c_ws = CLOSING, c_role = Some ''streamer'',
                c_deviceName = Some ''Front Door'', c_clientIp = ''10.0.0.2''\<rparr>
   \<and> on_message env0 ''m1'' OPEN (Data (PanZoom ''c1'' (Some ''2'') (Some ''0.5'') None))
        state_closing = state_closing
   \<and> map_of (clients state_watched) ''c1''
        = Some \<lparr>c_ws = OPEN, c_role = Some ''streamer'',
                c_deviceName = Some ''Front Door'', c_clientIp = ''10.0.0.2''\<rparr>
   \<and> on_message env0 ''m1'' OPEN (Data (PanZoom ''c1'' (Some ''2'') (Some ''0.5'') None))
        state_watched
       = state_watched\<lparr>sent := sent state_watched
                          @ [(''c1'', PanZoomCommand (Some ''2'') (Some ''0.5'') None)]\<rparr>"
proof -
  have a: "map_of (clients state_watched) ''zz'' = None"
    by (simp add: state_watched_fields)
  have c: "map_of (clients state_watched) ''c1''
        = Some \<lparr>c_ws = OPEN, c_role = Some ''streamer'',
                c_deviceName = Some ''Front Door'', c_clientIp = ''10.0.0.2''\<rparr>"
    by (simp add: state_watched_fields)
  note b = state_closing_c1
  have w1: "on_message env0 ''m1'' OPEN (Data (PanZoom ''zz'' (Some ''2'') (Some ''0.5'') None))
        state_watched = state_watched"
    using a pan_zoom_forwarding [of state_watched "''zz''" env0 "''m1''" OPEN "Some ''2''"
        "Some ''0.5''" None] by blast
  have w2: "on_message env0 ''m1'' OPEN (Data (PanZoom ''c1'' (Some ''2'') (Some ''0.5'') None))
        state_closing = state_closing"
    using b pan_zoom_forwarding [of state_closing "''c1''" env0 "''m1''" OPEN "Some ''2''"
        "Some ''0.5''" None "\<lparr>c_ws = CLOSING, c_role = Some ''streamer'',
             c_deviceName = Some ''Front Door'', c_clientIp = ''10.0.0.2''\<rparr>"] by simp
  have w3: "on_message env0 ''m1'' OPEN (Data (PanZoom ''c1'' (Some ''2'') (Some ''0.5'') None))
        state_watched
       = state_watched\<lparr>sent := sent state_watched
                          @ [(''c1'', PanZoomCommand (Some ''2'') (Some ''0.5'') None)]\<rparr>"
    using c pan_zoom_forwarding [of state_watched "''c1''" env0 "''m1''" OPEN "Some ''2''"
        "Some ''0.5''" None "\<lparr>c_ws = OPEN, c_role = Some ''streamer'',
             c_deviceName = Some ''Front Door'', c_clientIp = ''10.0.0.2''\<rparr>"] by simp
  show ?thesis using a b c w1 w2 w3 by blast
qed

text \<open>
  C1, as the code has it. A \<open>register\<close> from an identity that is already registered is
  not rejected; it is handled as a first one. handleMessage returns without throwing, so
  no \<open>error\<close> is sent; the identity's role and deviceName become those of the message;
  with role \<open>streamer\<close> its StreamerRecord is replaced by a fresh one with empty producer
  and transport lists and \<open>streamer-joined\<close> goes to every viewer with an open socket;
  with role \<open>master\<close> it joins the viewer set, if not yet in it, and is sent the streamer
  list; and \<open>registered\<close> goes to the sender's socket, if OPEN.
\<close>

theorem register_again:
  assumes "map_of (clients s) clientId = Some client"
    and "c_role client = Some r"
  shows
    "(let name = (if truthy deviceName then the deviceName else ''Device-'' @ take 8 clientId);
          s' = on_message e clientId ws (Data (Register role deviceName)) s;
          registered = (if ws = OPEN then [(clientId, Registered role name)] else [])
      in fst (handleMessage e clientId ws (Register role deviceName) s) = Return ()
       \<and> map_of (clients s') clientId
            = Some (client\<lparr>c_role := role, c_deviceName := Some name\<rparr>)
       \<and> (role = Some ''streamer'' \<longrightarrow>
            map_of (streamers s') clientId
              = Some \<lparr>s_deviceName = name, s_producers = [], s_transports = []\<rparr>
            \<and> masters s' = masters s
            \<and> sent s' = sent s @ map (\<lambda>m. (m, StreamerJoined clientId name)) (open_masters s)
                          @ registered)
       \<and> (role = Some ''master'' \<longrightarrow>
            streamers s' = streamers s
            \<and> masters s' = (if clientId \<in> set (masters s) then masters s
                            else masters s @ [clientId])
            \<and> sent s' = sent s @ (if ws = OPEN then [(clientId, StreamerList (streamerList s))]
                                    else []) @ registered)
       \<and> (role \<noteq> Some ''streamer'' \<and> role \<noteq> Some ''master'' \<longrightarrow>
            streamers s' = streamers s \<and> masters s' = masters s
            \<and> sent s' = sent s @ registered))"
proof -
  let ?name = "if truthy deviceName then the deviceName else ''Device-'' @ take 8 clientId"
  obtain s1 where h: "handleMessage e clientId ws (Register role deviceName) s = (Return (), s1)"
    and s1: "s1 = snd (handle_register clientId ws role deviceName s)"
    using handle_register_eq [OF assms(1), of ws role deviceName]
    by (simp add: handleMessage_def Let_def)
  have on: "on_message e clientId ws (Data (Register role deviceName)) s = s1"
    by (rule on_message_Return [OF h])
  show ?thesis
    unfolding Let_def on h s1 handle_register_eq [OF assms(1)]
    using assms(1) by (simp add: update_conv' Let_def map_of_map_entry)
qed

text \<open>
  The front door, streaming and watched, registers again as \<open>Porch\<close>.
\<close>

theorem register_again_witness:
  "map_of (clients state_watched) ''c1''
     = Some \<lparr>c_ws = OPEN, c_role = Some ''streamer'',
             c_deviceName = Some ''Front Door'', c_clientIp = ''10.0.0.2''\<rparr>
   \<and> c_role \<lparr>c_ws = OPEN, c_role = Some ''streamer'',
             c_deviceName = Some ''Front Door'', c_clientIp = ''10.0.0.2''\<rparr> = Some ''streamer''
   \<and> fst (handleMessage env0 ''c1'' OPEN (Register (Some ''streamer'') (Some ''Porch''))
            state_watched) = Return ()
   \<and> map_of (streamers (on_message env0 ''c1'' OPEN
                (Data (Register (Some ''streamer'') (Some ''Porch''))) state_watched)) ''c1''
       = Some \<lparr>s_deviceName = ''Porch'', s_producers = [], s_transports = []\<rparr>
   \<and> sent (on_message env0 ''c1'' OPEN
                (Data (Register (Some ''streamer'') (Some ''Porch''))) state_watched)
       = sent state_watched @ [(''m1'', StreamerJoined ''c1'' ''Porch''),
                               (''c1'', Registered (Some ''streamer'') ''Porch'')]"
proof -
  have a: "map_of (clients state_watched) ''c1''
     = Some \<lparr>c_ws = OPEN, c_role = Some ''streamer'',
             c_deviceName = Some ''Front Door'', c_clientIp = ''10.0.0.2''\<rparr>"
    by (simp add: state_watched_fields)
  have b: "c_role \<lparr>c_ws = OPEN, c_role = Some ''streamer'',
             c_deviceName = Some ''Front Door'', c_clientIp = ''10.0.0.2''\<rparr> = Some ''streamer''"
    by simp
  note t = register_again [OF a b, of "Some ''Porch''" env0 OPEN "Some ''streamer''"]
  have w: "fst (handleMessage env0 ''c1'' OPEN (Register (Some ''streamer'') (Some ''Porch''))
            state_watched) = Return ()
   \<and> map_of (streamers (on_message env0 ''c1'' OPEN
                (Data (Register (Some ''streamer'') (Some ''Porch''))) state_watched)) ''c1''
       = Some \<lparr>s_deviceName = ''Porch'', s_producers = [], s_transports = []\<rparr>
   \<and> sent (on_message env0 ''c1'' OPEN
                (Data (Register (Some ''streamer'') (Some ''Porch''))) state_watched)
       = sent state_watched @ [(''m1'', StreamerJoined ''c1'' ''Porch''),
                               (''c1'', Registered (Some ''streamer'') ''Porch'')]"
    using t by (simp add: Let_def truthy_def open_masters_watched)
  show ?thesis using a b w by blast
qed

text \<open>
  C1, as the specification states it, fails: the camera \<open>c1\<close>, registered as a streamer
  with producer \<open>p1\<close> and transport \<open>t1\<close> on record, registers a second time. No error
  comes back; its name is overwritten, its StreamerRecord is replaced by an empty one,
  the viewer is told a streamer joined, and the sender is told \<open>registered\<close>.
\<close>

theorem register_twice_counterexample:
  "map_of (clients state_watched) ''c1''
     = Some \<lparr>c_ws = OPEN, c_role = Some ''streamer'',
             c_deviceName = Some ''Front Door'', c_clientIp = ''10.0.0.2''\<rparr>
   \<and> map_of (streamers state_watched) ''c1''
     = Some \<lparr>s_deviceName = ''Front Door'', s_producers = [''p1''], s_transports = [''t1'']\<rparr>
   \<and> map_of (clients (on_message env0 ''c1'' OPEN
                (Data (Register (Some ''streamer'') (Some ''Porch''))) state_watched)) ''c1''
     = Some \<lparr>c_ws = OPEN, c_role = Some ''streamer'',
             c_deviceName = Some ''Porch'', c_clientIp = ''10.0.0.2''\<rparr>
   \<and> map_of (streamers (on_message env0 ''c1'' OPEN
                (Data (Register (Some ''streamer'') (Some ''Porch''))) state_watched)) ''c1''
     = Some \<lparr>s_deviceName = ''Porch'', s_producers = [], s_transports = []\<rparr>
   \<and> sent (on_message env0 ''c1'' OPEN
                (Data (Register (Some ''streamer'') (Some ''Porch''))) state_watched)
     = sent state_watched @ [(''m1'', StreamerJoined ''c1'' ''Porch''),
                             (''c1'', Registered (Some ''streamer'') ''Porch'')]"
  by (simp add: cex_defs state_watched_fields)

text \<open>
  C5. A streamer's \<open>stop-streaming\<close> is meant to stop its recordings and clean up its
  media resources, and it does while the registry still holds its producers: when the
  front door streams and then stops, no recording remains, the stop sequence of its
  session is scheduled and the capture consumer is closed. But the handler looks for the
  recordings under the producers the registry holds for the sender. Once the front
  door's transport has reported its DTLS state closed, the engine has emitted
  \<open>transportclose\<close> on the producer and its listener has taken the producer out of the
  registry, while the StreamerRecord still lists it and its recording still runs. The
  \<open>stop-streaming\<close> sent then removes the StreamerRecord, resets the role and is confirmed
  with \<open>streaming-stopped\<close>, but stops nothing: the session of \<open>p1\<close> is still among the
  active recordings, no stop sequence is scheduled, no encoder is asked to quit, and the
  capture consumer and the capture transport are not closed.
\<close>

theorem stop_streaming_leaves_recording:
  "recordings state_streaming = [(''p1'', session1)]
   \<and> recordings (run (front_door @ stops) (init True [''/srv/recordings''])) = []
   \<and> timers (run (front_door @ stops) (init True [''/srv/recordings'']))
       = [(500, StopSequence session1)]
   \<and> Consumer ''rc1'' \<in> set (closed (run (front_door @ stops) (init True [''/srv/recordings''])))
   \<and> map_of (streamers state_dtls_closed) ''c1''
       = Some \<lparr>s_deviceName = ''Front Door'', s_producers = [''p1''], s_transports = [''t1'']\<rparr>
   \<and> getProducersByClient ''c1'' state_dtls_closed = []
   \<and> recordings state_dtls_closed = [(''p1'', session1)]
   \<and> map_of (streamers (run (front_door @ dtls_closes @ stops) (init True [''/srv/recordings''])))
        ''c1'' = None
   \<and> map (c_role \<circ> snd)
        (clients (run (front_door @ dtls_closes @ stops) (init True [''/srv/recordings''])))
       = [None]
   \<and> sent (run (front_door @ dtls_closes @ stops) (init True [''/srv/recordings'']))
       = sent state_dtls_closed @ [(''c1'', StreamingStopped)]
   \<and> recordings (run (front_door @ dtls_closes @ stops) (init True [''/srv/recordings'']))
       = [(''p1'', session1)]
   \<and> map fst (getActiveRecordings env1
        (run (front_door @ dtls_closes @ stops) (init True [''/srv/recordings''])))
       = [''p1'']
   \<and> timers (run (front_door @ dtls_closes @ stops) (init True [''/srv/recordings''])) = []
   \<and> killed (run (front_door @ dtls_closes @ stops) (init True [''/srv/recordings''])) = []
   \<and> closed (run (front_door @ dtls_closes @ stops) (init True [''/srv/recordings'']))
       = [Transport ''t1'', Producer ''p1'']
   \<and> effects (run (front_door @ dtls_closes @ stops) (init True [''/srv/recordings'']))
       = effects state_dtls_closed @ [Close (Transport ''t1'')]"
proof -
  have a: "recordings state_streaming = [(''p1'', session1)]"
    by (simp add: state_streaming_eq session1_def)
  have b: "recordings (run (front_door @ stops) (init True [''/srv/recordings''])) = []
     \<and> timers (run (front_door @ stops) (init True [''/srv/recordings'']))
         = [(500, StopSequence session1)]
     \<and> Consumer ''rc1''
         \<in> set (closed (run (front_door @ stops) (init True [''/srv/recordings''])))"
    unfolding after_stop_normal by simp
  have c: "map_of (streamers state_dtls_closed) ''c1''
       = Some \<lparr>s_deviceName = ''Front Door'', s_producers = [''p1''], s_transports = [''t1'']\<rparr>
     \<and> getProducersByClient ''c1'' state_dtls_closed = []
     \<and> recordings state_dtls_closed = [(''p1'', session1)]"
    by (simp add: state_dtls_closed_eq state_streaming_eq session1_def getProducersByClient_def)
  have d: "map_of (streamers (run (front_door @ dtls_closes @ stops)
                     (init True [''/srv/recordings'']))) ''c1'' = None
     \<and> map (c_role \<circ> snd)
          (clients (run (front_door @ dtls_closes @ stops) (init True [''/srv/recordings''])))
         = [None]
     \<and> sent (run (front_door @ dtls_closes @ stops) (init True [''/srv/recordings'']))
         = sent state_dtls_closed @ [(''c1'', StreamingStopped)]"
    unfolding after_stop_dtls by simp
  have e: "recordings (run (front_door @ dtls_closes @ stops) (init True [''/srv/recordings'']))
         = [(''p1'', session1)]
     \<and> map fst (getActiveRecordings env1
          (run (front_door @ dtls_closes @ stops) (init True [''/srv/recordings''])))
         = [''p1'']"
    unfolding after_stop_dtls
    by (simp add: state_dtls_closed_eq state_streaming_eq session1_def getActiveRecordings_def)
  have f: "timers (run (front_door @ dtls_closes @ stops) (init True [''/srv/recordings''])) = []
     \<and> killed (run (front_door @ dtls_closes @ stops) (init True [''/srv/recordings''])) = []
     \<and> closed (run (front_door @ dtls_closes @ stops) (init True [''/srv/recordings'']))
         = [Transport ''t1'', Producer ''p1'']"
    unfolding after_stop_dtls by (simp add: state_dtls_closed_eq state_streaming_eq)
  have g: "effects (run (front_door @ dtls_closes @ stops) (init True [''/srv/recordings'']))
         = effects state_dtls_closed @ [Close (Transport ''t1'')]"
    unfolding after_stop_dtls by simp
  show ?thesis using a b c d e f g by blast
qed

text \<open>
  C6. In every state the server reaches, when a connected identity registers as
  \<open>master\<close> the new frames on its socket (if OPEN) are \<open>streamer-list\<close> and then
  \<open>registered\<close>, and it is a viewer afterwards. The list has one entry per
  StreamerRecord, as many as there are, in the order in which the records were created
  (an identity that registers again as streamer while it holds a record keeps its
  place), and each entry lists the producers the registry holds for that identity.
  Every registered streamer, that is every identity whose role is \<open>streamer\<close>, has an
  entry.
\<close>

theorem viewer_register_streamer_list:
  assumes "s = run evs (init b paths)"
    and "map_of (clients s) clientId = Some client"
  shows
    "(let name = (if truthy deviceName then the deviceName else ''Device-'' @ take 8 clientId);
          s' = on_message e clientId ws (Data (Register (Some ''master'') deviceName)) s
      in sent s' = sent s @ (if ws = OPEN
                             then [(clientId, StreamerList (streamerList s)),
                                   (clientId, Registered (Some ''master'') name)]
                             else [])
       \<and> clientId \<in> set (masters s')
       \<and> length (streamerList s) = length (record_order evs)
       \<and> map fst (streamerList s) = record_order evs
       \<and> distinct (record_order evs)
       \<and> map (snd \<circ> snd) (streamerList s)
            = map (\<lambda>id. getProducersByClient id s) (record_order evs)
       \<and> filter (\<lambda>id. id \<notin> set (map fst (streamerList s))) (registered_streamers s) = [])"
proof -
  note reg = handle_register_eq [OF assms(2), of ws "Some ''master''" deviceName]
  obtain s1 where h: "handleMessage e clientId ws (Register (Some ''master'') deviceName) s
                        = (Return (), s1)"
    and s1: "s1 = snd (handle_register clientId ws (Some ''master'') deviceName s)"
    using reg by (simp add: handleMessage_def Let_def)
  have on: "on_message e clientId ws (Data (Register (Some ''master'') deviceName)) s = s1"
    by (rule on_message_Return [OF h])
  have k: "map fst (streamers s) = record_order evs"
    and d: "distinct (map fst (streamers s))"
    unfolding assms(1) using run_keys [of evs b paths] by blast+
  have f: "map fst (streamerList s) = map fst (streamers s)"
    by (simp add: streamerList_def case_prod_beta)
  have p: "map (snd \<circ> snd) (streamerList s)
             = map (\<lambda>id. getProducersByClient id s) (map fst (streamers s))"
    by (simp add: streamerList_def case_prod_beta)
  have l: "length (streamerList s) = length (map fst (streamers s))"
    by (simp add: streamerList_def)
  have c1: "sent s1 = sent s @ (if ws = OPEN
                             then [(clientId, StreamerList (streamerList s)),
                                   (clientId, Registered (Some ''master'')
                                      (if truthy deviceName then the deviceName
                                       else ''Device-'' @ take 8 clientId))]
                             else [])"
    unfolding s1 reg by (simp add: Let_def)
  have c2: "clientId \<in> set (masters s1)"
    unfolding s1 reg by (simp add: Let_def)
  have ro: "role_ok (role_view s)"
    unfolding assms(1) by (rule role_ok_run)
  have r: "filter (\<lambda>id. id \<notin> set (map fst (streamerList s))) (registered_streamers s) = []"
    unfolding f by (rule registered_streamers_hold_records [OF ro])
  have c3: "length (streamerList s) = length (record_order evs)
       \<and> map fst (streamerList s) = record_order evs
       \<and> distinct (record_order evs)
       \<and> map (snd \<circ> snd) (streamerList s)
            = map (\<lambda>id. getProducersByClient id s) (record_order evs)"
    using f p l k d by simp
  show ?thesis
    unfolding Let_def on using c1 c2 c3 r by blast
qed

text \<open>
  Two cameras are registered, the front door with a video producer; the viewer's list
  names both, in that order.
\<close>

theorem viewer_register_streamer_list_witness:
  "state_arrived = run (front_door @ back_yard @ viewer_connects) (init True [''/srv/recordings''])
   \<and> map_of (clients state_arrived) ''m1''
     = Some \<lparr>c_ws = OPEN, c_role = None, c_deviceName = None, c_clientIp = ''10.0.0.9''\<rparr>
   \<and> sent (on_message env0 ''m1'' OPEN (Data (Register (Some ''master'') (Some ''Desk'')))
             state_arrived)
     = sent state_arrived @
         [(''m1'', StreamerList [(''c1'', ''Front Door'', [(''p1'', ''video'')]),
                                 (''c2'', ''Device-c2'', [])]),
          (''m1'', Registered (Some ''master'') ''Desk'')]
   \<and> record_order (front_door @ back_yard @ viewer_connects) = [''c1'', ''c2'']
   \<and> map fst (streamerList state_arrived) = [''c1'', ''c2'']
   \<and> registered_streamers state_arrived = [''c1'', ''c2'']"
proof -
  have h1: "state_arrived
              = run (front_door @ back_yard @ viewer_connects) (init True [''/srv/recordings''])"
    by (simp add: state_arrived_def)
  have h2: "map_of (clients state_arrived) ''m1''
     = Some \<lparr>c_ws = OPEN, c_role = None, c_deviceName = None, c_clientIp = ''10.0.0.9''\<rparr>"
    by (simp add: state_arrived_eq)
  note t = viewer_register_streamer_list [OF h1 h2, of "Some ''Desk''" env0 OPEN]
  have sl: "streamerList state_arrived
              = [(''c1'', ''Front Door'', [(''p1'', ''video'')]), (''c2'', ''Device-c2'', [])]"
    by (simp add: streamerList_def getProducersByClient_def state_arrived_eq state_streaming_eq)
  have w: "sent (on_message env0 ''m1'' OPEN (Data (Register (Some ''master'') (Some ''Desk'')))
             state_arrived)
     = sent state_arrived @
         [(''m1'', StreamerList [(''c1'', ''Front Door'', [(''p1'', ''video'')]),
                                 (''c2'', ''Device-c2'', [])]),
          (''m1'', Registered (Some ''master'') ''Desk'')]
   \<and> record_order (front_door @ back_yard @ viewer_connects) = [''c1'', ''c2'']
   \<and> map fst (streamerList state_arrived) = [''c1'', ''c2'']"
    using t by (simp add: Let_def truthy_def sl)
  have rs: "registered_streamers state_arrived = [''c1'', ''c2'']"
    by (simp add: registered_streamers_def state_arrived_eq state_streaming_eq)
  show ?thesis using h1 h2 w rs by blast
qed

text \<open>
  The list is not one entry per registered streamer. The front door registers as
  streamer and produces, then registers again as \<open>master\<close>: its role is \<open>master\<close>, no
  identity has role \<open>streamer\<close>, and its StreamerRecord is still there. The viewer
  \<open>m1\<close> that registers next is sent a list with one entry, the front door.
\<close>

theorem viewer_list_after_switch_counterexample:
  "map (\<lambda>(id, c). (id, c_role c)) (clients state_switched)
     = [(''c1'', Some ''master''), (''m1'', None)]
   \<and> registered_streamers state_switched = []
   \<and> map fst (streamers state_switched) = [''c1'']
   \<and> sent (on_message env0 ''m1'' OPEN (Data (Register (Some ''master'') (Some ''Desk'')))
             state_switched)
     = sent state_switched @
         [(''m1'', StreamerList [(''c1'', ''Front Door'', [(''p1'', ''video'')])]),
          (''m1'', Registered (Some ''master'') ''Desk'')]"
proof -
  have a: "map (\<lambda>(id, c). (id, c_role c)) (clients state_switched)
             = [(''c1'', Some ''master''), (''m1'', None)]
     \<and> registered_streamers state_switched = []
     \<and> map fst (streamers state_switched) = [''c1'']"
    by (simp add: registered_streamers_def state_switched_eq state_streaming_eq)
  have b: "sent (on_message env0 ''m1'' OPEN (Data (Register (Some ''master'') (Some ''Desk'')))
             state_switched)
     = sent state_switched @
         [(''m1'', StreamerList [(''c1'', ''Front Door'', [(''p1'', ''video'')])]),
          (''m1'', Registered (Some ''master'') ''Desk'')]"
    by (simp add: state_switched_eq state_streaming_eq ws_eval_defs)
  show ?thesis using a b by blast
qed

end
